theory Spec2Isabelle
  imports Main
begin

section \<open>Harvesting target pixel file metadata: a model of 2-analyze-target-pixel-files.py\<close>

text \<open>
  The script reads a list of URLs, obtains each file (from a local mirror, or by a
  download into a scratch directory), opens it as a FITS file, extracts a fixed record of
  header values and writes one CSV line per file. The model below follows the script
  function by function. Everything outside the Python process (the file system, the
  network, the FITS decoder of astropy) is an explicit value: the mutable part is the
  record \<open>world\<close>, the part the script cannot change is the record \<open>env\<close>.
  Exceptions are values of the datatype \<open>error\<close>.
\<close>

subsection \<open>Python strings\<close>

text \<open>
  A Python string is a list of characters, each a code point below 256; code points
  from 256 on are not modelled. Letter case is modelled for the ASCII letters only.
\<close>

type_synonym path = string
type_synonym url = string

definition NL :: char where
  "NL = CHR 0x0A"

definition CR :: char where
  "CR = CHR 0x0D"

text \<open>\<open>str.isspace\<close> on one character: tab, line feed, vertical tab, form feed, carriage
  return, the four separators 0x1C to 0x1F, the blank, the next-line character 0x85 and
  the no-break space 0xA0.\<close>

definition isspace :: "char \<Rightarrow> bool" where
  "isspace c =
     (let n = of_char c :: nat
      in (9 \<le> n \<and> n \<le> 13) \<or> (28 \<le> n \<and> n \<le> 32) \<or> n = 133 \<or> n = 160)"

text \<open>\<open>s.strip()\<close>: drops the white space at both ends.\<close>

definition strip :: "string \<Rightarrow> string" where
  "strip s = rev (dropWhile isspace (rev (dropWhile isspace s)))"

text \<open>\<open>s.startswith(p)\<close> and \<open>sub in s\<close>.\<close>

definition startswith :: "string \<Rightarrow> string \<Rightarrow> bool" where
  "startswith s p = (take (length p) s = p)"

fun contains :: "string \<Rightarrow> string \<Rightarrow> bool" where
  "contains [] sub = (sub = [])"
| "contains (c # cs) sub = (startswith (c # cs) sub \<or> contains cs sub)"

text \<open>
  \<open>s.replace(old, new)\<close>: every occurrence of \<open>old\<close>, found from the left without
  overlap, becomes \<open>new\<close>. For an empty \<open>old\<close> Python puts \<open>new\<close> before every
  character and at the end.
\<close>

function replace :: "string \<Rightarrow> string \<Rightarrow> string \<Rightarrow> string" where
  "replace [] old new = (if old = [] then new else [])"
| "replace (c # cs) old new =
     (if old = [] then new @ c # replace cs old new
      else if startswith (c # cs) old then new @ replace (drop (length old) (c # cs)) old new
      else c # replace cs old new)"
  by pat_completeness auto
termination
  by (relation "measure (\<lambda>(s, old, new). length s)") auto

text \<open>\<open>sep.join(xs)\<close>.\<close>

fun join :: "string \<Rightarrow> string list \<Rightarrow> string" where
  "join sep [] = []"
| "join sep [x] = x"
| "join sep (x # y # ys) = x @ sep @ join sep (y # ys)"

text \<open>\<open>s.lower()\<close>: the letters A to Z become a to z.\<close>

definition lower_char :: "char \<Rightarrow> char" where
  "lower_char c =
     (case map_of (zip ''ABCDEFGHIJKLMNOPQRSTUVWXYZ'' ''abcdefghijklmnopqrstuvwxyz'') c of
        None \<Rightarrow> c
      | Some d \<Rightarrow> d)"

definition lower :: "string \<Rightarrow> string" where
  "lower s = map lower_char s"

subsection \<open>Paths (\<open>posixpath\<close>)\<close>

text \<open>\<open>os.path.basename(p)\<close> is \<open>p[p.rfind('/') + 1:]\<close>: what follows the last slash.\<close>

definition basename :: "string \<Rightarrow> string" where
  "basename p = rev (takeWhile (\<lambda>c. c \<noteq> CHR ''/'') (rev p))"

text \<open>\<open>os.path.join(a, b)\<close> with two arguments.\<close>

definition path_join :: "path \<Rightarrow> string \<Rightarrow> path" where
  "path_join a b =
     (if startswith b ''/'' then b
      else if a = [] \<or> last a = CHR ''/'' then a @ b
      else a @ ''/'' @ b)"

subsection \<open>Configuration constants\<close>

definition DATA_STORE :: path where
  "DATA_STORE = ''/media/gb/kdata/k2/target_pixel_files''"

definition TMPDIR :: path where
  "TMPDIR = ''/data/tmp/''"

definition MAX_ATTEMPTS :: nat where
  "MAX_ATTEMPTS = 50"

definition SLEEP_BETWEEN_ATTEMPTS :: nat where
  "SLEEP_BETWEEN_ATTEMPTS = 30"

definition IGNORE_SHORT_CADENCE :: bool where
  "IGNORE_SHORT_CADENCE = False"

text \<open>The remote prefix that \<open>get_metadata_row\<close> replaces by \<open>DATA_STORE\<close> (a literal
  in the source).\<close>

definition MAST_PREFIX :: string where
  "MAST_PREFIX = ''http://archive.stsci.edu/missions/k2/target_pixel_files''"

text \<open>The two candidate paths that \<open>get_metadata_row\<close> computes from its (stripped) URL:
  the path in the local mirror and the path of the download in the scratch directory.\<close>

definition mirror_path :: "url \<Rightarrow> path" where
  "mirror_path u = replace u MAST_PREFIX DATA_STORE"

definition scratch_path :: "url \<Rightarrow> path" where
  "scratch_path u = path_join TMPDIR (basename u)"

subsection \<open>Numbers as text\<close>

text \<open>\<open>str(n)\<close> for an integer: decimal digits, with a minus sign when negative.
  \<open>digit_char\<close> is the character of a digit below ten.\<close>

definition digit_char :: "nat \<Rightarrow> char" where
  "digit_char d = ''0123456789'' ! d"

function show_nat :: "nat \<Rightarrow> string" where
  "show_nat n = (if n < 10 then [digit_char n] else show_nat (n div 10) @ [digit_char (n mod 10)])"
  by pat_completeness auto
termination
  by (relation "measure (\<lambda>n. n)") auto

declare show_nat.simps [simp del]

definition show_int :: "int \<Rightarrow> string" where
  "show_int i = (if i < 0 then CHR ''-'' # show_nat (nat (- i)) else show_nat (nat i))"

text \<open>
  \<open>"{:.1f}".format(size / 1048576.)\<close>: the size in MiB with one decimal. The quotient
  of a size below \<open>2 ^ 53\<close> by \<open>2 ^ 20\<close> is exact in a double, and the formatting rounds
  the exact value to the nearest tenth, a tie going to the even digit. (Sizes from
  \<open>2 ^ 53\<close> bytes on, where the conversion to a double rounds first, are not modelled.)
\<close>

definition tenths_of_mib :: "nat \<Rightarrow> nat" where
  "tenths_of_mib n =
     (let q = (n * 10) div 1048576; r = (n * 10) mod 1048576
      in if 524288 < r \<or> (r = 524288 \<and> odd q) then q + 1 else q)"

definition format_filesize :: "nat \<Rightarrow> string" where
  "format_filesize n =
     (let t = tenths_of_mib n in show_nat (t div 10) @ ''.'' @ show_nat (t mod 10))"

subsection \<open>Exceptions and log records\<close>

datatype error =
    URLError url         \<comment> \<open>\<open>urlopen\<close> could not open the URL\<close>
  | ReadError url        \<comment> \<open>\<open>response.read\<close> failed during the transfer\<close>
  | IOError path         \<comment> \<open>a file could not be opened\<close>
  | NotFits path         \<comment> \<open>\<open>fits.open\<close> could not decode the file\<close>
  | OSError path         \<comment> \<open>\<open>os.unlink\<close> or \<open>os.path.getsize\<close> failed\<close>
  | KeyError string
  | IndexError
  | TypeError
  | AttributeError
  | ValueError

text \<open>One constructor per logging call of the script, at level INFO or above (the
  logger is set to INFO, so the \<open>log.debug\<close> calls print nothing).\<close>

datatype log_entry =
    ErrMaxAttempts path              \<comment> \<open>"{}: max attempts reached"\<close>
  | WarnAttemptFailed path nat error \<comment> \<open>"{}: attempt {} failed: {}"\<close>
  | WarnNowSleeping nat              \<comment> \<open>"Now sleeping for {} sec"\<close>
  | ErrWorker url error              \<comment> \<open>"{}: {}" of \<open>get_metadata_row\<close>\<close>
  | ErrCouldNotDelete url error      \<comment> \<open>"Could not delete {}: {}"\<close>
  | InfoNowIndexing int              \<comment> \<open>"Now indexing campaign {}"\<close>
  | ErrProvideCampaign               \<comment> \<open>"Provide the campaign number ..."\<close>

subsection \<open>FITS files\<close>

text \<open>
  A Python value as it occurs in a header or in the record: a string, an integer, a
  logical, a float (kept as the text that \<open>str\<close> gives for it), astropy's \<open>Undefined\<close>
  object, and \<open>None\<close>. An HDU has a header, a map from (upper-case) keywords to the
  values of the cards, where \<open>Undefined\<close> is the value of a card without value, and
  possibly a data array, kept as the flat list of its entries. An opened file is a list
  of HDUs.
\<close>

datatype fits_value = Undefined | PyNone | SVal string | IVal int | BVal bool | FVal string

record hdu =
  cards :: "string \<rightharpoonup> fits_value"
  data :: "int list option"

type_synonym hdulist = "hdu list"

subsection \<open>The environment and the mutable world\<close>

text \<open>What a call of \<open>urlopen\<close> gives: a refusal, or a response whose successive
  \<open>read\<close> calls return the given chunks and then either the empty string (end of the
  body, flag \<open>True\<close>) or an exception (flag \<open>False\<close>).\<close>

datatype response = Refused | Stream "string list" bool

text \<open>
  The environment holds what the script cannot change:
  \<^item> \<open>urlopen_result u k\<close>: the result of \<open>urlopen(u)\<close> when \<open>k\<close> network calls have
    been made before;
  \<^item> \<open>fits_decode bytes\<close>: the HDU list astropy reads from a file with these bytes, if
    they are a FITS file;
  \<^item> \<open>fits_glitch p k\<close>: whether the open of path \<open>p\<close> fails for a transient reason
    when \<open>k\<close> calls of \<open>fits.open\<close> have been made before;
  \<^item> \<open>create_denied p\<close>: whether \<open>open(p, 'w')\<close> is refused (a directory, a missing
    parent, a permission);
  \<^item> \<open>unlink_denied p\<close>: whether \<open>os.unlink(p)\<close> is refused;
  \<^item> \<open>undefined_str\<close>: the text of \<open>str\<close> on astropy's \<open>Undefined\<close> object (it
    contains an address).
\<close>

record env =
  urlopen_result :: "url \<Rightarrow> nat \<Rightarrow> response"
  fits_decode :: "string \<Rightarrow> hdulist option"
  fits_glitch :: "path \<Rightarrow> nat \<Rightarrow> bool"
  create_denied :: "path \<Rightarrow> bool"
  unlink_denied :: "path \<Rightarrow> bool"
  undefined_str :: string

text \<open>
  The world holds what the script changes or causes: the regular files (a map from
  paths to contents; directories are not modelled), the number of \<open>urlopen\<close> calls and
  of \<open>fits.open\<close> calls made so far, the durations of the \<open>time.sleep\<close> calls made so
  far, and the log.
\<close>

record world =
  files :: "path \<rightharpoonup> string"
  net_calls :: nat
  open_calls :: nat
  sleeps :: "nat list"
  log :: "log_entry list"

definition log_add :: "world \<Rightarrow> log_entry \<Rightarrow> world" where
  "log_add w x = w\<lparr>log := log w @ [x]\<rparr>"

definition time_sleep :: "world \<Rightarrow> nat \<Rightarrow> world" where
  "time_sleep w n = w\<lparr>sleeps := sleeps w @ [n]\<rparr>"

definition os_path_exists :: "world \<Rightarrow> path \<Rightarrow> bool" where
  "os_path_exists w p = (files w p \<noteq> None)"

definition os_path_getsize :: "world \<Rightarrow> path \<Rightarrow> error + nat" where
  "os_path_getsize w p = (case files w p of None \<Rightarrow> Inl (OSError p) | Some c \<Rightarrow> Inr (length c))"

text \<open>\<open>open(p, 'w')\<close> and \<open>open(p, 'wb')\<close>: the file is created, or emptied if it is
  there.\<close>

definition open_write :: "env \<Rightarrow> world \<Rightarrow> path \<Rightarrow> error + world" where
  "open_write E w p =
     (if create_denied E p then Inl (IOError p) else Inr (w\<lparr>files := (files w)(p \<mapsto> [])\<rparr>))"

text \<open>A \<open>write\<close> through a handle opened on \<open>p\<close>, flushed. (If the file has been
  unlinked since, the bytes go to a file without a name.)\<close>

definition file_write :: "world \<Rightarrow> path \<Rightarrow> string \<Rightarrow> world" where
  "file_write w p s =
     (case files w p of None \<Rightarrow> w | Some c \<Rightarrow> w\<lparr>files := (files w)(p \<mapsto> c @ s)\<rparr>)"

definition os_unlink :: "env \<Rightarrow> world \<Rightarrow> path \<Rightarrow> error + world" where
  "os_unlink E w p =
     (if unlink_denied E p \<or> files w p = None then Inl (OSError p)
      else Inr (w\<lparr>files := (files w)(p := None)\<rparr>))"

text \<open>\<open>fits.open(p, memmap=True)\<close>.\<close>

definition fits_open :: "env \<Rightarrow> world \<Rightarrow> path \<Rightarrow> (error + hdulist) \<times> world" where
  "fits_open E w p =
     (let k = open_calls w; w1 = w\<lparr>open_calls := k + 1\<rparr>
      in case files w p of
           None \<Rightarrow> (Inl (IOError p), w1)
         | Some bytes \<Rightarrow>
             if fits_glitch E p k then (Inl (IOError p), w1)
             else (case fits_decode E bytes of
                     None \<Rightarrow> (Inl (NotFits p), w1)
                   | Some h \<Rightarrow> (Inr h, w1)))"

subsection \<open>The class \<open>TargetPixelFile\<close>\<close>

text \<open>The attribute \<open>fits\<close> is set by the retry loop of the constructor; \<open>None\<close> stands
  for an object on which it was never set.\<close>

record tpf =
  tpf_path :: path
  tpf_url :: url
  tpf_fits :: "hdulist option"

text \<open>
  The retry loop of \<open>__init__\<close> (\<open>while attempt <= MAX_ATTEMPTS\<close>), with the loop variable
  \<open>attempt\<close> and the attribute \<open>self.fits\<close> as it stands. A successful open sets
  \<open>attempt\<close> to 99, which ends the loop at the next test. A failed open raises at the
  last attempt and otherwise logs, sleeps and counts.
\<close>

function init_loop ::
  "env \<Rightarrow> path \<Rightarrow> nat \<Rightarrow> hdulist option \<Rightarrow> world \<Rightarrow> (error + hdulist option) \<times> world" where
  "init_loop E p attempt fitsv w =
     (if attempt \<le> MAX_ATTEMPTS then
        (case fits_open E w p of
           (Inr h, w1) \<Rightarrow> init_loop E p 99 (Some h) w1
         | (Inl e, w1) \<Rightarrow>
             if attempt = MAX_ATTEMPTS then (Inl e, log_add w1 (ErrMaxAttempts p))
             else init_loop E p (attempt + 1) fitsv
                    (time_sleep
                       (log_add (log_add w1 (WarnAttemptFailed p attempt e))
                          (WarnNowSleeping SLEEP_BETWEEN_ATTEMPTS))
                       SLEEP_BETWEEN_ATTEMPTS))
      else (Inr fitsv, w))"
  by pat_completeness auto
termination
  by (relation "measure (\<lambda>(E, p, attempt, fitsv, w). (MAX_ATTEMPTS + 1) - attempt)")
     (auto simp: MAX_ATTEMPTS_def)

declare init_loop.simps [simp del]

text \<open>\<open>TargetPixelFile(path, url)\<close>; the argument \<open>url\<close> is optional.\<close>

definition TargetPixelFile :: "env \<Rightarrow> world \<Rightarrow> path \<Rightarrow> url option \<Rightarrow> (error + tpf) \<times> world" where
  "TargetPixelFile E w p u =
     (let self_path = strip p;
          self_url = (case u of None \<Rightarrow> self_path | Some v \<Rightarrow> v)
      in case init_loop E p 1 None w of
           (Inl e, w1) \<Rightarrow> (Inl e, w1)
         | (Inr f, w1) \<Rightarrow> (Inr \<lparr>tpf_path = self_path, tpf_url = self_url, tpf_fits = f\<rparr>, w1))"

text \<open>\<open>self.fits[ext]\<close>: an \<open>IndexError\<close> when the file has no such HDU.\<close>

definition fits_getitem :: "tpf \<Rightarrow> nat \<Rightarrow> error + hdu" where
  "fits_getitem t ext =
     (case tpf_fits t of
        None \<Rightarrow> Inl AttributeError
      | Some hs \<Rightarrow> if ext < length hs then Inr (hs ! ext) else Inl IndexError)"

text \<open>\<open>hdu.header[kw]\<close>, astropy's lookup of a keyword: a \<open>KeyError\<close> when no card
  has the keyword, \<open>None\<close> when the card has no value, and the value of the card
  otherwise.\<close>

definition header_getitem :: "hdu \<Rightarrow> string \<Rightarrow> error + fits_value" where
  "header_getitem h kw =
     (case cards h kw of
        None \<Rightarrow> Inl (KeyError kw)
      | Some Undefined \<Rightarrow> Inr PyNone
      | Some v \<Rightarrow> Inr v)"

text \<open>The method \<open>header(kw, ext)\<close>: only the \<open>KeyError\<close> of the keyword lookup is
  caught, and the value is replaced by the empty string when it is an instance of
  \<open>Undefined\<close>.\<close>

definition header :: "tpf \<Rightarrow> string \<Rightarrow> nat \<Rightarrow> error + fits_value" where
  "header t kw ext =
     (case fits_getitem t ext of
        Inl e \<Rightarrow> Inl e
      | Inr h \<Rightarrow>
          (case header_getitem h kw of
             Inl e \<Rightarrow> (case e of KeyError k \<Rightarrow> Inr (SVal []) | _ \<Rightarrow> Inl e)
           | Inr Undefined \<Rightarrow> Inr (SVal [])
           | Inr v \<Rightarrow> Inr v))"

text \<open>An \<open>OrderedDict\<close> is the list of its items in insertion order; an assignment to
  a key that is there keeps its place.\<close>

type_synonym odict = "(string \<times> fits_value) list"

fun odict_set :: "odict \<Rightarrow> string \<Rightarrow> fits_value \<Rightarrow> odict" where
  "odict_set [] k v = [(k, v)]"
| "odict_set ((k', v') # m) k v = (if k' = k then (k, v) # m else (k', v') # odict_set m k v)"

text \<open>The three loops \<open>for kw in [...]: meta[kw] = self.header(kw, ext)\<close>.\<close>

fun header_loop :: "tpf \<Rightarrow> nat \<Rightarrow> string list \<Rightarrow> odict \<Rightarrow> error + odict" where
  "header_loop t ext [] meta = Inr meta"
| "header_loop t ext (kw # kws) meta =
     (case header t kw ext of
        Inl e \<Rightarrow> Inl e
      | Inr v \<Rightarrow> header_loop t ext kws (odict_set meta kw v))"

definition KW_PRIMARY :: "string list" where
  "KW_PRIMARY = [''OBJECT'', ''KEPLERID'', ''OBSMODE'', ''CAMPAIGN'', ''DATA_REL'',
                 ''CHANNEL'', ''MODULE'', ''OUTPUT'', ''RA_OBJ'', ''DEC_OBJ'', ''KEPMAG'']"

definition KW_TABLE :: "string list" where
  "KW_TABLE = [''LC_START'', ''LC_END'', ''GAIN'', ''READNOIS'', ''MEANBLCK'',
               ''CDPP3_0'', ''CDPP6_0'', ''CDPP12_0'']"

definition KW_APERTURE :: "string list" where
  "KW_APERTURE = [''NAXIS1'', ''NAXIS2'', ''CRPIX1'', ''CRPIX2'', ''CRVAL1'', ''CRVAL2'',
                  ''CDELT1'', ''CDELT2'', ''PC1_1'', ''PC1_2'', ''PC2_1'', ''PC2_2'',
                  ''CRVAL1P'', ''CRVAL2P'']"

text \<open>\<open>self.fits[1].header["NAXIS2"]\<close>, read without the method \<open>header\<close>.\<close>

definition cadences :: "tpf \<Rightarrow> error + fits_value" where
  "cadences t =
     (case fits_getitem t 1 of
        Inl e \<Rightarrow> Inl e
      | Inr h \<Rightarrow> header_getitem h ''NAXIS2'')"

text \<open>\<open>(self.fits[2].data > 0).sum()\<close>; an HDU without data has \<open>data = None\<close>, and the
  comparison of \<open>None\<close> with 0 raises.\<close>

definition npix :: "tpf \<Rightarrow> error + fits_value" where
  "npix t =
     (case fits_getitem t 2 of
        Inl e \<Rightarrow> Inl e
      | Inr h \<Rightarrow>
          (case data h of
             None \<Rightarrow> Inl TypeError
           | Some xs \<Rightarrow> Inr (IVal (int (length (filter (\<lambda>x. 0 < x) xs))))))"

definition get_metadata :: "world \<Rightarrow> tpf \<Rightarrow> error + odict" where
  "get_metadata w t =
     (let m1 = odict_set [] ''filename'' (SVal (basename (tpf_url t)));
          m2 = odict_set m1 ''url'' (SVal (tpf_url t))
      in case os_path_getsize w (tpf_path t) of
           Inl e \<Rightarrow> Inl e
         | Inr n \<Rightarrow>
      (let m3 = odict_set m2 ''filesize'' (SVal (format_filesize n))
       in case header_loop t 0 KW_PRIMARY m3 of
            Inl e \<Rightarrow> Inl e
          | Inr m4 \<Rightarrow>
       (case cadences t of
            Inl e \<Rightarrow> Inl e
          | Inr c \<Rightarrow>
       (case header_loop t 1 KW_TABLE (odict_set m4 ''cadences'' c) of
            Inl e \<Rightarrow> Inl e
          | Inr m5 \<Rightarrow>
       (case npix t of
            Inl e \<Rightarrow> Inl e
          | Inr k \<Rightarrow> header_loop t 2 KW_APERTURE (odict_set m5 ''npix'' k))))))"

text \<open>\<open>str(v)\<close> for a value of the record. In the two functions after it, the values
  read by key (\<open>meta[kw] for kw in meta\<close>) are the values of the items in order, the
  keys of a dictionary being distinct.\<close>

definition py_str :: "env \<Rightarrow> fits_value \<Rightarrow> string" where
  "py_str E v =
     (case v of
        Undefined \<Rightarrow> undefined_str E
      | PyNone \<Rightarrow> ''None''
      | SVal s \<Rightarrow> s
      | IVal i \<Rightarrow> show_int i
      | BVal b \<Rightarrow> (if b then ''True'' else ''False'')
      | FVal s \<Rightarrow> s)"

definition get_csv_header :: "world \<Rightarrow> tpf \<Rightarrow> error + string" where
  "get_csv_header w t =
     (case get_metadata w t of
        Inl e \<Rightarrow> Inl e
      | Inr meta \<Rightarrow> Inr (join '','' (map (\<lambda>(kw, v). lower kw) meta)))"

definition get_csv_row :: "env \<Rightarrow> world \<Rightarrow> tpf \<Rightarrow> error + string" where
  "get_csv_row E w t =
     (case get_metadata w t of
        Inl e \<Rightarrow> Inl e
      | Inr meta \<Rightarrow> Inr (join '','' (map (\<lambda>(kw, v). py_str E v) meta)))"

subsection \<open>The worker: \<open>download_file\<close> and \<open>get_metadata_row\<close>\<close>

text \<open>The loop of \<open>download_file\<close>: \<open>read\<close> until the empty string, each chunk
  written to the file as it comes.\<close>

fun read_loop :: "world \<Rightarrow> url \<Rightarrow> path \<Rightarrow> string list \<Rightarrow> bool \<Rightarrow> error option \<times> world" where
  "read_loop w u p [] ok = (if ok then (None, w) else (Some (ReadError u), w))"
| "read_loop w u p (chunk # chunks) ok =
     (if chunk = [] then (None, w) else read_loop (file_write w p chunk) u p chunks ok)"

definition download_file :: "env \<Rightarrow> world \<Rightarrow> url \<Rightarrow> path \<Rightarrow> error option \<times> world" where
  "download_file E w u local_filename =
     (let k = net_calls w; w1 = w\<lparr>net_calls := k + 1\<rparr>
      in case urlopen_result E u k of
           Refused \<Rightarrow> (Some (URLError u), w1)
         | Stream chunks ok \<Rightarrow>
             (case open_write E w1 local_filename of
                Inl e \<Rightarrow> (Some e, w1)
              | Inr w2 \<Rightarrow> read_loop w2 u local_filename chunks ok))"

text \<open>
  The body of \<open>get_metadata_row\<close> is a \<open>try\<close> block with a handler and a \<open>finally\<close>
  clause. The block has two parts. The first (up to \<open>tmp_download = True\<close>) obtains
  the file; \<open>acquire\<close> gives the exception raised, if any, and the local variables
  \<open>path\<close> and \<open>tmp_download\<close> as they stand when the part is left.
\<close>

definition acquire :: "env \<Rightarrow> world \<Rightarrow> url \<Rightarrow> error option \<times> path \<times> bool \<times> world" where
  "acquire E w u =
     (let localpath = mirror_path u
      in if os_path_exists w localpath then (None, localpath, False, w)
         else (let p = scratch_path u
               in case download_file E w u p of
                    (Some e, w1) \<Rightarrow> (Some e, p, False, w1)
                  | (None, w1) \<Rightarrow> (None, p, True, w1)))"

text \<open>The second part opens the file and builds the text; it gives the exception
  raised, if any, and the variable \<open>output\<close> as it stands.\<close>

definition read_rows :: "env \<Rightarrow> world \<Rightarrow> path \<Rightarrow> url \<Rightarrow> bool \<Rightarrow> error option \<times> string \<times> world" where
  "read_rows E w p u hdr =
     (case TargetPixelFile E w p (Some u) of
        (Inl e, w1) \<Rightarrow> (Some e, [], w1)
      | (Inr t, w1) \<Rightarrow>
          (case (if hdr then (case get_csv_header w1 t of
                                Inl e \<Rightarrow> Inl e
                              | Inr h \<Rightarrow> Inr (h @ [NL]))
                 else Inr []) of
             Inl e \<Rightarrow> (Some e, [], w1)
           | Inr output \<Rightarrow>
               (case get_csv_row E w1 t of
                  Inl e \<Rightarrow> (Some e, output, w1)
                | Inr r \<Rightarrow> (None, output @ r @ [NL], w1))))"

definition try_block ::
  "env \<Rightarrow> world \<Rightarrow> url \<Rightarrow> bool \<Rightarrow> error option \<times> string \<times> path \<times> bool \<times> world" where
  "try_block E w u hdr =
     (case acquire E w u of
        (Some e, p, tmp_download, w1) \<Rightarrow> (Some e, [], p, tmp_download, w1)
      | (None, p, tmp_download, w1) \<Rightarrow>
          (case read_rows E w1 p u hdr of
             (err, output, w2) \<Rightarrow> (err, output, p, tmp_download, w2)))"

text \<open>The \<open>finally\<close> clause.\<close>

definition finally_block :: "env \<Rightarrow> world \<Rightarrow> url \<Rightarrow> path \<Rightarrow> bool \<Rightarrow> world" where
  "finally_block E w u p tmp_download =
     (if tmp_download then
        (case os_unlink E w p of
           Inl e \<Rightarrow> log_add w (ErrCouldNotDelete u e)
         | Inr w1 \<Rightarrow> w1)
      else w)"

text \<open>\<open>get_metadata_row(url, header)\<close> returns \<open>None\<close> or a string.\<close>

definition get_metadata_row :: "env \<Rightarrow> world \<Rightarrow> url \<Rightarrow> bool \<Rightarrow> string option \<times> world" where
  "get_metadata_row E w url0 hdr =
     (let u = strip url0
      in if IGNORE_SHORT_CADENCE \<and> contains u ''spd-targ'' then (None, w)
         else (case try_block E w u hdr of
                 (err, output, p, tmp_download, w1) \<Rightarrow>
                   (let w2 = (case err of
                                None \<Rightarrow> w1
                              | Some e \<Rightarrow> log_add w1 (ErrWorker u e))
                    in (Some output, finally_block E w2 u p tmp_download))))"

subsection \<open>The table: \<open>write_metadata_table\<close>\<close>

text \<open>
  Reading a text file (Python 3, default newline handling): \<open>\r\n\<close> and a lone \<open>\r\<close>
  are read as \<open>\n\<close>, and \<open>readlines\<close> cuts after every \<open>\n\<close>, each line keeping its
  terminator.
\<close>

fun universal_newlines :: "string \<Rightarrow> string" where
  "universal_newlines [] = []"
| "universal_newlines [c] = [if c = CR then NL else c]"
| "universal_newlines (c # d # cs) =
     (if c = CR \<and> d = NL then NL # universal_newlines cs
      else if c = CR then NL # universal_newlines (d # cs)
      else c # universal_newlines (d # cs))"

fun lines_from :: "string \<Rightarrow> string \<Rightarrow> string list" where
  "lines_from cur [] = (if cur = [] then [] else [cur])"
| "lines_from cur (c # cs) =
     (if c = NL then (cur @ [NL]) # lines_from [] cs else lines_from (cur @ [c]) cs)"

definition readlines :: "string \<Rightarrow> string list" where
  "readlines s = lines_from [] (universal_newlines s)"

text \<open>
  \<open>multiprocessing.Pool().imap_unordered\<close> gives one result per task, in the order in
  which the tasks complete. That order is a parameter: \<open>completion_order sched n\<close> is
  the permutation of the task numbers below \<open>n\<close> that starts with the numbers listed in
  \<open>sched\<close>; every permutation is obtained from some \<open>sched\<close>. The tasks run one after the
  other in that order, each on the world the one before has left: the interleaving of
  the steps of two workers is not modelled.
\<close>

definition completion_order :: "nat list \<Rightarrow> nat \<Rightarrow> nat list" where
  "completion_order sched n =
     remdups (filter (\<lambda>i. i < n) sched) @ filter (\<lambda>i. i \<notin> set sched) [0 ..< n]"

fun pool_map :: "env \<Rightarrow> world \<Rightarrow> url list \<Rightarrow> string option list \<times> world" where
  "pool_map E w [] = ([], w)"
| "pool_map E w (u # us) =
     (case get_metadata_row E w u False of
        (r, w1) \<Rightarrow> (case pool_map E w1 us of (rs, w2) \<Rightarrow> (r # rs, w2)))"

definition imap_unordered :: "env \<Rightarrow> nat list \<Rightarrow> world \<Rightarrow> url list \<Rightarrow> string option list \<times> world" where
  "imap_unordered E sched w us =
     pool_map E w (map (\<lambda>i. us ! i) (completion_order sched (length us)))"

text \<open>The loop over the results: \<open>if result is not None: out.write(result); out.flush()\<close>.\<close>

fun write_results :: "world \<Rightarrow> path \<Rightarrow> string option list \<Rightarrow> world" where
  "write_results w output_fn [] = w"
| "write_results w output_fn (r # rs) =
     write_results (case r of None \<Rightarrow> w | Some s \<Rightarrow> file_write w output_fn s) output_fn rs"

text \<open>
  \<open>write_metadata_table(input_fn, output_fn)\<close>: the exception that leaves the function,
  if any, and the world. The output is opened for writing first, then the input is
  read. \<open>urls[0]\<close> raises on an empty list, and \<open>out.write(None)\<close> raises. The progress
  bar is left out.
\<close>

definition write_metadata_table ::
  "env \<Rightarrow> nat list \<Rightarrow> world \<Rightarrow> path \<Rightarrow> path \<Rightarrow> error option \<times> world" where
  "write_metadata_table E sched w input_fn output_fn =
     (case open_write E w output_fn of
        Inl e \<Rightarrow> (Some e, w)
      | Inr w1 \<Rightarrow>
          (case files w1 input_fn of
             None \<Rightarrow> (Some (IOError input_fn), w1)
           | Some text \<Rightarrow>
               (case readlines text of
                  [] \<Rightarrow> (Some IndexError, w1)
                | u0 # rest \<Rightarrow>
                    (case get_metadata_row E w1 u0 True of
                       (None, w2) \<Rightarrow> (Some TypeError, w2)
                     | (Some s, w2) \<Rightarrow>
                         (case imap_unordered E sched (file_write w2 output_fn s) rest of
                            (rs, w3) \<Rightarrow> (None, write_results w3 output_fn rs))))))"

subsection \<open>The main program\<close>

definition isdigit :: "char \<Rightarrow> bool" where
  "isdigit c = (let n = of_char c :: nat in 48 \<le> n \<and> n \<le> 57)"

definition digit_val :: "char \<Rightarrow> nat" where
  "digit_val c = of_char c - 48"

text \<open>
  \<open>int(s)\<close> on a string: white space around, an optional sign, decimal digits, single
  underscores between digits. The white space that \<open>int\<close> skips is not that of
  \<open>strip\<close>: of the ASCII characters only tab, line feed, vertical tab, form feed,
  carriage return and the blank (0x1C to 0x1F make \<open>int\<close> raise), and beyond ASCII the
  blanks 0x85 and 0xA0.
\<close>

definition int_isspace :: "char \<Rightarrow> bool" where
  "int_isspace c =
     (let n = of_char c :: nat in (9 \<le> n \<and> n \<le> 13) \<or> n = 32 \<or> n = 133 \<or> n = 160)"

fun int_digits :: "nat \<Rightarrow> string \<Rightarrow> nat option" where
  "int_digits acc [] = None"
| "int_digits acc [c] = (if isdigit c then Some (10 * acc + digit_val c) else None)"
| "int_digits acc (c # d # cs) =
     (if \<not> isdigit c then None
      else if d = CHR ''_'' then int_digits (10 * acc + digit_val c) cs
      else int_digits (10 * acc + digit_val c) (d # cs))"

definition py_int :: "string \<Rightarrow> error + int" where
  "py_int s =
     (case rev (dropWhile int_isspace (rev (dropWhile int_isspace s))) of
        [] \<Rightarrow> Inl ValueError
      | c # cs \<Rightarrow>
          if c = CHR ''-'' then
            (case int_digits 0 cs of None \<Rightarrow> Inl ValueError | Some n \<Rightarrow> Inr (- int n))
          else if c = CHR ''+'' then
            (case int_digits 0 cs of None \<Rightarrow> Inl ValueError | Some n \<Rightarrow> Inr (int n))
          else
            (case int_digits 0 (c # cs) of None \<Rightarrow> Inl ValueError | Some n \<Rightarrow> Inr (int n)))"

text \<open>\<open>"{:02d}".format(n)\<close>: at least two characters, zeros after the sign.\<close>

definition format_02d :: "int \<Rightarrow> string" where
  "format_02d n = (if 0 \<le> n \<and> n < 10 then CHR ''0'' # show_int n else show_int n)"

definition campaign_input_fn :: "int \<Rightarrow> path" where
  "campaign_input_fn c = ''intermediate-data/k2-c'' @ format_02d c @ ''-tpf-urls.txt''"

definition campaign_output_fn :: "int \<Rightarrow> path" where
  "campaign_output_fn c = ''intermediate-data/k2-c'' @ format_02d c @ ''-tpf-metadata.csv''"

text \<open>How the program ends: it runs to its end, it calls \<open>sys.exit\<close>, or an exception
  that nothing catches ends it.\<close>

datatype ending = Finished | SysExit nat | Uncaught error

text \<open>The loop \<open>for campaign in campaigns\<close>; \<open>scheds c\<close> is the completion order of the
  pool of campaign \<open>c\<close>.\<close>

fun campaign_loop :: "env \<Rightarrow> (int \<Rightarrow> nat list) \<Rightarrow> world \<Rightarrow> int list \<Rightarrow> ending \<times> world" where
  "campaign_loop E scheds w [] = (Finished, w)"
| "campaign_loop E scheds w (c # cs) =
     (case write_metadata_table E (scheds c) (log_add w (InfoNowIndexing c))
             (campaign_input_fn c) (campaign_output_fn c) of
        (Some e, w1) \<Rightarrow> (Uncaught e, w1)
      | (None, w1) \<Rightarrow> campaign_loop E scheds w1 cs)"

definition main :: "env \<Rightarrow> (int \<Rightarrow> nat list) \<Rightarrow> world \<Rightarrow> string list \<Rightarrow> ending \<times> world" where
  "main E scheds w argv =
     (if length argv \<noteq> 2 then (SysExit 1, log_add w ErrProvideCampaign)
      else if argv ! 1 = ''all'' then campaign_loop E scheds w [0, 1, 2, 3, 4, 5]
      else (case py_int (argv ! 1) of
              Inl e \<Rightarrow> (Uncaught e, w)
            | Inr c \<Rightarrow> campaign_loop E scheds w [c]))"

subsection \<open>The published field list, and what a record must hold\<close>

text \<open>The field names of the CSV header as the specification lists them, and the header
  line made of them.\<close>

definition FIELD_NAMES :: "string list" where
  "FIELD_NAMES =
     [''filename'', ''url'', ''filesize'', ''object'', ''keplerid'', ''obsmode'', ''campaign'',
      ''data_rel'', ''channel'', ''module'', ''output'', ''ra_obj'', ''dec_obj'', ''kepmag'',
      ''cadences'', ''lc_start'', ''lc_end'', ''gain'', ''readnois'', ''meanblck'', ''cdpp3_0'',
      ''cdpp6_0'', ''cdpp12_0'', ''npix'', ''naxis1'', ''naxis2'', ''crpix1'', ''crpix2'',
      ''crval1'', ''crval2'', ''cdelt1'', ''cdelt2'', ''pc1_1'', ''pc1_2'', ''pc2_1'', ''pc2_2'',
      ''crval1p'', ''crval2p'']"

definition CSV_HEADER :: string where
  "CSV_HEADER = join '','' FIELD_NAMES"

text \<open>The keys of the dictionary that \<open>get_metadata\<close> fills, in the order of its
  assignments.\<close>

definition META_KEYS :: "string list" where
  "META_KEYS = [''filename'', ''url'', ''filesize''] @ KW_PRIMARY @ [''cadences''] @ KW_TABLE
               @ [''npix''] @ KW_APERTURE"

text \<open>What the method \<open>header\<close> returns for a keyword of an HDU: the empty string
  when no card has the keyword, \<open>None\<close> when the card has no value, and the value of
  the card otherwise.\<close>

definition header_value :: "hdu \<Rightarrow> string \<Rightarrow> fits_value" where
  "header_value h kw =
     (case cards h kw of None \<Rightarrow> SVal [] | Some Undefined \<Rightarrow> PyNone | Some v \<Rightarrow> v)"

text \<open>\<open>field_of_card meta h kw\<close>: in the record \<open>meta\<close>, the field \<open>kw\<close> follows the
  card \<open>kw\<close> of the HDU \<open>h\<close>: it is the empty string when the card is absent, and the
  value of the card when the card has a value.\<close>

definition field_of_card :: "odict \<Rightarrow> hdu \<Rightarrow> string \<Rightarrow> bool" where
  "field_of_card meta h kw =
     ((cards h kw = None \<longrightarrow> map_of meta kw = Some (SVal [])) \<and>
      (\<forall>v. cards h kw = Some v \<and> v \<noteq> Undefined \<longrightarrow> map_of meta kw = Some v))"

text \<open>The record expected of a file with the HDUs \<open>hs\<close>, of \<open>n\<close> bytes, where the
  lookup of \<open>NAXIS2\<close> in the first extension gives \<open>c\<close> and the aperture mask holds the
  entries \<open>xs\<close>.\<close>

definition expected_metadata :: "tpf \<Rightarrow> hdulist \<Rightarrow> nat \<Rightarrow> fits_value \<Rightarrow> int list \<Rightarrow> odict" where
  "expected_metadata t hs n c xs =
     ((([(''filename'', SVal (basename (tpf_url t))), (''url'', SVal (tpf_url t)),
        (''filesize'', SVal (format_filesize n))]
       @ map (\<lambda>kw. (kw, header_value (hs ! 0) kw)) KW_PRIMARY)
       @ [(''cadences'', c)])
       @ map (\<lambda>kw. (kw, header_value (hs ! 1) kw)) KW_TABLE
       @ [(''npix'', IVal (int (length (filter (\<lambda>x. 0 < x) xs))))])
       @ map (\<lambda>kw. (kw, header_value (hs ! 2) kw)) KW_APERTURE"

subsection \<open>Example files\<close>

text \<open>
  A file with the three HDUs of a target pixel file (a few cards each), and the same
  without the card \<open>NAXIS2\<close> in its first extension. The example environment decodes
  them. On its network, \<open>b.fits\<close> comes in two chunks, the transfer of \<open>c.fits\<close> breaks
  after the first chunk, \<open>d.fits\<close> is refused at the first network call only, and
  everything else is refused. The example world holds three files in the local mirror:
  \<open>a.fits\<close>, \<open>n.fits\<close> (without \<open>NAXIS2\<close>) and \<open>g.fits\<close>, which is not a FITS
  file. It holds the URL lists of campaign 1 (\<open>a.fits\<close>, \<open>c.fits\<close>, \<open>b.fits\<close>) and
  of campaign 2 (\<open>d.fits\<close>, \<open>a.fits\<close>), and none for campaign 0.
\<close>

definition example_hdus :: hdulist where
  "example_hdus =
     [\<lparr>cards = [''OBJECT'' \<mapsto> SVal ''EPIC 202059070'', ''KEPLERID'' \<mapsto> IVal 202059070,
                ''KEPMAG'' \<mapsto> Undefined],
       data = None\<rparr>,
      \<lparr>cards = [''NAXIS2'' \<mapsto> IVal 3, ''GAIN'' \<mapsto> FVal ''108.22''], data = None\<rparr>,
      \<lparr>cards = [''NAXIS1'' \<mapsto> IVal 2, ''NAXIS2'' \<mapsto> IVal 2], data = Some [0, 1, 3, 3]\<rparr>]"

definition example_hdus_no_naxis2 :: hdulist where
  "example_hdus_no_naxis2 =
     [\<lparr>cards = [''OBJECT'' \<mapsto> SVal ''EPIC 202059070''], data = None\<rparr>,
      \<lparr>cards = [''GAIN'' \<mapsto> FVal ''108.22''], data = None\<rparr>,
      \<lparr>cards = [''NAXIS1'' \<mapsto> IVal 2, ''NAXIS2'' \<mapsto> IVal 2], data = Some [0, 1, 3, 3]\<rparr>]"

definition example_env :: env where
  "example_env =
     \<lparr>urlopen_result = (\<lambda>u k.
        if u = ''http://archive.stsci.edu/missions/k2/target_pixel_files/c0/b.fits''
          then Stream [''FI'', ''TS''] True
        else if u = ''http://archive.stsci.edu/missions/k2/target_pixel_files/c0/c.fits''
          then Stream [''FI''] False
        else if u = ''http://archive.stsci.edu/missions/k2/target_pixel_files/c0/d.fits''
          then (if k = 0 then Refused else Stream [''FITS''] True)
        else Refused),
      fits_decode = (\<lambda>b. if b = ''FITS'' then Some example_hdus
                          else if b = ''FITS without NAXIS2'' then Some example_hdus_no_naxis2
                          else None),
      fits_glitch = (\<lambda>p k. False),
      create_denied = (\<lambda>p. False),
      unlink_denied = (\<lambda>p. False),
      undefined_str = ''<astropy.io.fits.card.Undefined object at 0x7f3a5c0b1d30>''\<rparr>"

definition example_world :: world where
  "example_world =
     \<lparr>files = [''/media/gb/kdata/k2/target_pixel_files/c0/a.fits'' \<mapsto> ''FITS'',
               ''/media/gb/kdata/k2/target_pixel_files/c0/n.fits'' \<mapsto> ''FITS without NAXIS2'',
               ''/media/gb/kdata/k2/target_pixel_files/c0/g.fits'' \<mapsto> ''not a FITS file'',
               ''intermediate-data/k2-c01-tpf-urls.txt'' \<mapsto>
                 ''http://archive.stsci.edu/missions/k2/target_pixel_files/c0/a.fits'' @ [NL] @
                 ''http://archive.stsci.edu/missions/k2/target_pixel_files/c0/c.fits'' @ [NL] @
                 ''http://archive.stsci.edu/missions/k2/target_pixel_files/c0/b.fits'' @ [NL],
               ''intermediate-data/k2-c02-tpf-urls.txt'' \<mapsto>
                 ''http://archive.stsci.edu/missions/k2/target_pixel_files/c0/d.fits'' @ [NL] @
                 ''http://archive.stsci.edu/missions/k2/target_pixel_files/c0/a.fits'' @ [NL]],
      net_calls = 0, open_calls = 0, sleeps = [], log = []\<rparr>"

definition example_tpf :: tpf where
  "example_tpf =
     \<lparr>tpf_path = ''/media/gb/kdata/k2/target_pixel_files/c0/a.fits'',
      tpf_url = ''http://archive.stsci.edu/missions/k2/target_pixel_files/c0/a.fits'',
      tpf_fits = Some example_hdus\<rparr>"

definition example_tpf_no_naxis2 :: tpf where
  "example_tpf_no_naxis2 =
     \<lparr>tpf_path = ''/media/gb/kdata/k2/target_pixel_files/c0/n.fits'',
      tpf_url = ''http://archive.stsci.edu/missions/k2/target_pixel_files/c0/n.fits'',
      tpf_fits = Some example_hdus_no_naxis2\<rparr>"

subsection \<open>Observations on a run\<close>

text \<open>\<open>attempt_result E w p k\<close> is what \<open>fits.open\<close> gives on path \<open>p\<close> when it is the
  call number \<open>k\<close> (from 0) made from the world \<open>w\<close>.\<close>

definition attempt_result :: "env \<Rightarrow> world \<Rightarrow> path \<Rightarrow> nat \<Rightarrow> error + hdulist" where
  "attempt_result E w p k = fst (fits_open E (w\<lparr>open_calls := open_calls w + k\<rparr>) p)"

text \<open>The failures that \<open>get_metadata_row\<close> has logged.\<close>

definition is_worker_error :: "log_entry \<Rightarrow> bool" where
  "is_worker_error x = (case x of ErrWorker u e \<Rightarrow> True | _ \<Rightarrow> False)"

definition worker_errors :: "world \<Rightarrow> nat" where
  "worker_errors w = length (filter is_worker_error (log w))"

text \<open>
  What the retry loop of \<open>__init__\<close> has done when it is left, started at attempt \<open>a\<close>
  in world \<open>w\<close>, with result \<open>res\<close> in world \<open>w'\<close>: it has made \<open>n\<close> calls of
  \<open>fits.open\<close>, at least one and no more than the attempts left; all calls but the
  last have failed, and each of those was followed by one sleep of
  \<open>SLEEP_BETWEEN_ATTEMPTS\<close> seconds; the loop raises only when the attempts are used
  up, and then raises the error of the last call; otherwise it has set \<open>self.fits\<close> to
  the result of the last call. Files, network calls and logged worker failures are as
  before.
\<close>

definition retry_summary ::
  "env \<Rightarrow> path \<Rightarrow> nat \<Rightarrow> world \<Rightarrow> (error + hdulist option) \<Rightarrow> world \<Rightarrow> nat \<Rightarrow> bool" where
  "retry_summary E p a w res w' n =
     (1 \<le> n \<and> a + n \<le> MAX_ATTEMPTS + 1 \<and>
      open_calls w' = open_calls w + n \<and>
      files w' = files w \<and> net_calls w' = net_calls w \<and>
      worker_errors w' = worker_errors w \<and>
      sleeps w' = sleeps w @ replicate (n - 1) SLEEP_BETWEEN_ATTEMPTS \<and>
      (\<forall>k < n - 1. isl (attempt_result E w p k)) \<and>
      (case res of
         Inl e \<Rightarrow> a + n = MAX_ATTEMPTS + 1 \<and> attempt_result E w p (n - 1) = Inl e
       | Inr f \<Rightarrow> f = (case attempt_result E w p (n - 1) of Inl e \<Rightarrow> None | Inr h \<Rightarrow> Some h)
                  \<and> f \<noteq> None))"

text \<open>The values of the cards of the files that this environment decodes are written
  by \<open>str\<close> without a line feed (a FITS card holds printable characters only).\<close>

definition single_line_values :: "env \<Rightarrow> bool" where
  "single_line_values E =
     (\<forall>bytes hs. fits_decode E bytes = Some hs \<longrightarrow>
        (\<forall>h \<in> set hs. \<forall>v \<in> ran (cards h). NL \<notin> set (py_str E v)))"

text \<open>The data rows of a CSV text: its lines other than the header line.\<close>

definition data_rows :: "string \<Rightarrow> nat" where
  "data_rows text = length (filter (\<lambda>l. l \<noteq> CSV_HEADER @ [NL]) (lines_from [] text))"

text \<open>The text that the loop over the results writes for a list of results.\<close>

definition results_text :: "string option list \<Rightarrow> string" where
  "results_text rs = concat (map (\<lambda>r. case r of None \<Rightarrow> [] | Some s \<Rightarrow> s) rs)"

text \<open>\<open>lines_text ls tx\<close>: the text \<open>tx\<close> consists of the lines \<open>ls\<close>, each complete and
  terminated by a line feed.\<close>

definition lines_text :: "string list \<Rightarrow> string \<Rightarrow> bool" where
  "lines_text ls tx = (tx = concat (map (\<lambda>l. l @ [NL]) ls) \<and> (\<forall>l \<in> set ls. NL \<notin> set l))"

text \<open>The scratch paths of a list of URLs as read from the URL list.\<close>

definition scratch_paths :: "url list \<Rightarrow> path set" where
  "scratch_paths us = (\<lambda>u. scratch_path (strip u)) ` set us"

section \<open>Properties\<close>

subsection \<open>Paths\<close>

lemma basename_no_slash: "CHR ''/'' \<notin> set (basename p)"
  unfolding basename_def using set_takeWhileD by fastforce

lemma not_startswith_slash_basename: "\<not> startswith (basename p) ''/''"
proof
  assume "startswith (basename p) ''/''"
  then have "take 1 (basename p) = ''/''" by (simp add: startswith_def)
  then have "CHR ''/'' \<in> set (basename p)"
    by (metis in_set_takeD list.set_intros(1))
  with basename_no_slash show False by blast
qed

lemma scratch_path_eq: "scratch_path u = TMPDIR @ basename u"
  by (simp add: scratch_path_def path_join_def not_startswith_slash_basename TMPDIR_def)

text \<open>
  Claim C8, as amended. The scratch path of a URL is the scratch directory followed by
  the basename of the URL, and nothing else: two URLs have the same scratch path exactly
  when they have the same basename.
\<close>

theorem scratch_path_by_basename:
  "scratch_path u = TMPDIR @ basename u \<and>
   (scratch_path u1 = scratch_path u2 \<longleftrightarrow> basename u1 = basename u2)"
  by (simp add: scratch_path_eq)

text \<open>Claim C8, as stated, fails: two distinct URLs with the basename \<open>x.fits\<close> are
  downloaded to the same scratch path.\<close>

theorem scratch_path_collision:
  "''http://archive.stsci.edu/missions/k2/target_pixel_files/c0/a/x.fits'' \<noteq>
   ''http://archive.stsci.edu/missions/k2/target_pixel_files/c0/b/x.fits'' \<and>
   basename ''http://archive.stsci.edu/missions/k2/target_pixel_files/c0/a/x.fits'' =
   basename ''http://archive.stsci.edu/missions/k2/target_pixel_files/c0/b/x.fits'' \<and>
   scratch_path ''http://archive.stsci.edu/missions/k2/target_pixel_files/c0/a/x.fits'' =
   scratch_path ''http://archive.stsci.edu/missions/k2/target_pixel_files/c0/b/x.fits''"
  by (simp add: scratch_path_def basename_def)

subsection \<open>The metadata record\<close>

lemma keys_odict_set:
  "map fst (odict_set m k v) = (if k \<in> set (map fst m) then map fst m else map fst m @ [k])"
  by (induction m k v rule: odict_set.induct) auto

lemma keys_header_loop:
  "header_loop t ext kws m = Inr m' \<Longrightarrow> map fst m = ks \<Longrightarrow> distinct (ks @ kws) \<Longrightarrow>
   map fst m' = ks @ kws"
proof (induction kws arbitrary: m ks)
  case Nil
  then show ?case by simp
next
  case (Cons kw kws)
  from Cons.prems(1) obtain v where v: "header t kw ext = Inr v"
    and rest: "header_loop t ext kws (odict_set m kw v) = Inr m'"
    by (auto split: sum.splits)
  from Cons.prems(2,3) have k: "map fst (odict_set m kw v) = ks @ [kw]"
    by (simp add: keys_odict_set)
  from Cons.prems(3) have "distinct ((ks @ [kw]) @ kws)" by simp
  from Cons.IH[OF rest k this] show ?case by simp
qed

lemma keys_odict_set_new:
  "map fst m = ks \<Longrightarrow> k \<notin> set ks \<Longrightarrow> map fst (odict_set m k v) = ks @ [k]"
  by (simp add: keys_odict_set)

lemma distinct_keys1: "distinct ([''filename'', ''url'', ''filesize''] @ KW_PRIMARY)"
  by (simp add: KW_PRIMARY_def)

lemma distinct_keys2:
  "distinct ((([''filename'', ''url'', ''filesize''] @ KW_PRIMARY) @ [''cadences'']) @ KW_TABLE)"
  by (simp add: KW_PRIMARY_def KW_TABLE_def)

lemma distinct_keys3:
  "distinct ((((([''filename'', ''url'', ''filesize''] @ KW_PRIMARY) @ [''cadences'']) @ KW_TABLE)
      @ [''npix'']) @ KW_APERTURE)"
  by (simp add: KW_PRIMARY_def KW_TABLE_def KW_APERTURE_def)

lemma META_KEYS_assoc:
  "((((([''filename'', ''url'', ''filesize''] @ KW_PRIMARY) @ [''cadences'']) @ KW_TABLE)
      @ [''npix'']) @ KW_APERTURE) = META_KEYS"
  by (simp add: META_KEYS_def)

lemma keys_get_metadata:
  assumes "get_metadata w t = Inr meta"
  shows "map fst meta = META_KEYS"
proof -
  let ?m3 = "odict_set (odict_set (odict_set [] ''filename'' (SVal (basename (tpf_url t))))
               ''url'' (SVal (tpf_url t)))"
  let ?k1 = "[''filename'', ''url'', ''filesize''] @ KW_PRIMARY"
  let ?k2 = "(?k1 @ [''cadences'']) @ KW_TABLE"
  from assms obtain n m4 c m5 k where
    m4: "header_loop t 0 KW_PRIMARY (?m3 ''filesize'' (SVal (format_filesize n))) = Inr m4" and
    m5: "header_loop t 1 KW_TABLE (odict_set m4 ''cadences'' c) = Inr m5" and
    m6: "header_loop t 2 KW_APERTURE (odict_set m5 ''npix'' k) = Inr meta"
    by (auto simp: get_metadata_def Let_def split: sum.splits)
  have k3: "map fst (?m3 ''filesize'' (SVal (format_filesize n))) = [''filename'', ''url'', ''filesize'']"
    by simp
  have k4: "map fst m4 = ?k1"
    by (rule keys_header_loop[OF m4 k3 distinct_keys1])
  have "''cadences'' \<notin> set ?k1" using distinct_keys2 by simp
  then have k4c: "map fst (odict_set m4 ''cadences'' c) = ?k1 @ [''cadences'']"
    by (rule keys_odict_set_new[OF k4])
  have k5: "map fst m5 = ?k2"
    by (rule keys_header_loop[OF m5 k4c distinct_keys2])
  have "''npix'' \<notin> set ?k2" using distinct_keys3 by simp
  then have k5n: "map fst (odict_set m5 ''npix'' k) = ?k2 @ [''npix'']"
    by (rule keys_odict_set_new[OF k5])
  have "map fst meta = (?k2 @ [''npix'']) @ KW_APERTURE"
    by (rule keys_header_loop[OF m6 k5n distinct_keys3])
  then show ?thesis unfolding META_KEYS_assoc .
qed

lemma lower_META_KEYS: "map lower META_KEYS = FIELD_NAMES"
  by (simp add: META_KEYS_def KW_PRIMARY_def KW_TABLE_def KW_APERTURE_def lower_def lower_char_def FIELD_NAMES_def)

lemma csv_header_text: "CSV_HEADER = ''filename,url,filesize,object,keplerid,obsmode,campaign,data_rel,channel,module,output,ra_obj,dec_obj,kepmag,cadences,lc_start,lc_end,gain,readnois,meanblck,cdpp3_0,cdpp6_0,cdpp12_0,npix,naxis1,naxis2,crpix1,crpix2,crval1,crval2,cdelt1,cdelt2,pc1_1,pc1_2,pc2_1,pc2_2,crval1p,crval2p''"
  by (simp add: CSV_HEADER_def FIELD_NAMES_def)

lemma get_csv_header_ok:
  assumes "get_metadata w t = Inr meta"
  shows "get_csv_header w t = Inr CSV_HEADER"
proof -
  have "map (\<lambda>(kw, v). lower kw) meta = map lower (map fst meta)"
    by (simp add: case_prod_unfold)
  then show ?thesis
    using assms by (simp add: get_csv_header_def keys_get_metadata lower_META_KEYS CSV_HEADER_def)
qed

text \<open>
  Claim C5. Whenever \<open>get_metadata\<close> returns a record for a file, in any world, the
  header line \<open>get_csv_header\<close> is the fixed line of the 38 lower-cased field names in
  the published order; the lower-cased keys of the record are that list; and the data
  line \<open>get_csv_row\<close> is the comma-joined text of the values of the record in the same
  order.
\<close>

theorem csv_header_fixed:
  assumes "get_metadata w t = Inr meta"
  shows "get_csv_header w t = Inr ''filename,url,filesize,object,keplerid,obsmode,campaign,data_rel,channel,module,output,ra_obj,dec_obj,kepmag,cadences,lc_start,lc_end,gain,readnois,meanblck,cdpp3_0,cdpp6_0,cdpp12_0,npix,naxis1,naxis2,crpix1,crpix2,crval1,crval2,cdelt1,cdelt2,pc1_1,pc1_2,pc2_1,pc2_2,crval1p,crval2p'' \<and>
         map (\<lambda>(kw, v). lower kw) meta = FIELD_NAMES \<and>
         get_csv_row E w t = Inr (join '','' (map (\<lambda>(kw, v). py_str E v) meta))"
proof -
  have "map (\<lambda>(kw, v). lower kw) meta = map lower (map fst meta)"
    by (simp add: case_prod_unfold)
  then have "map (\<lambda>(kw, v). lower kw) meta = FIELD_NAMES"
    by (simp add: keys_get_metadata[OF assms] lower_META_KEYS)
  moreover have "get_csv_header w t = Inr CSV_HEADER"
    by (rule get_csv_header_ok[OF assms])
  moreover have "get_csv_row E w t = Inr (join '','' (map (\<lambda>(kw, v). py_str E v) meta))"
    using assms by (simp add: get_csv_row_def)
  ultimately show ?thesis unfolding csv_header_text by simp
qed

lemma odict_set_new: "k \<notin> set (map fst m) \<Longrightarrow> odict_set m k v = m @ [(k, v)]"
  by (induction m k v rule: odict_set.induct) auto

lemma header_present:
  "tpf_fits t = Some hs \<Longrightarrow> ext < length hs \<Longrightarrow> header t kw ext = Inr (header_value (hs ! ext) kw)"
  by (simp add: header_def fits_getitem_def header_getitem_def header_value_def
      split: option.splits fits_value.splits)

lemma header_loop_value:
  "tpf_fits t = Some hs \<Longrightarrow> ext < length hs \<Longrightarrow> distinct (map fst m @ kws) \<Longrightarrow>
   header_loop t ext kws m = Inr (m @ map (\<lambda>kw. (kw, header_value (hs ! ext) kw)) kws)"
proof (induction kws arbitrary: m)
  case Nil
  then show ?case by simp
next
  case (Cons kw kws)
  from Cons.prems(3) have new: "kw \<notin> set (map fst m)" by auto
  have d: "distinct (map fst (m @ [(kw, header_value (hs ! ext) kw)]) @ kws)"
    using Cons.prems(3) by auto
  show ?case
    using Cons.IH[OF Cons.prems(1,2) d]
    by (simp add: header_present[OF Cons.prems(1,2)] odict_set_new[OF new])
qed

lemma get_metadata_value:
  assumes fits: "tpf_fits t = Some hs" and len: "3 \<le> length hs"
    and naxis2: "header_getitem (hs ! 1) ''NAXIS2'' = Inr c"
    and dat: "data (hs ! 2) = Some xs"
    and fl: "files w (tpf_path t) = Some bytes"
  shows "get_metadata w t = Inr (expected_metadata t hs (length bytes) c xs)"
proof -
  let ?m3 = "[(''filename'', SVal (basename (tpf_url t))), (''url'', SVal (tpf_url t)),
        (''filesize'', SVal (format_filesize (length bytes)))]"
  let ?m4 = "?m3 @ map (\<lambda>kw. (kw, header_value (hs ! 0) kw)) KW_PRIMARY"
  let ?m5 = "(?m4 @ [(''cadences'', c)]) @ map (\<lambda>kw. (kw, header_value (hs ! 1) kw)) KW_TABLE"
  have l0: "0 < length hs" and l1: "1 < length hs" and l2: "2 < length hs" using len by auto
  have m3: "odict_set (odict_set (odict_set [] ''filename'' (SVal (basename (tpf_url t))))
               ''url'' (SVal (tpf_url t))) ''filesize'' (SVal (format_filesize (length bytes))) = ?m3"
    by simp
  have k3: "map fst ?m3 = [''filename'', ''url'', ''filesize'']" by simp
  have h4: "header_loop t 0 KW_PRIMARY ?m3 = Inr ?m4"
    by (rule header_loop_value[OF fits l0]) (use distinct_keys1 in simp)
  have k4: "map fst ?m4 = [''filename'', ''url'', ''filesize''] @ KW_PRIMARY"
    by (simp add: comp_def)
  have "''cadences'' \<notin> set (map fst ?m4)" unfolding k4 using distinct_keys2 by simp
  then have c4: "odict_set ?m4 ''cadences'' c = ?m4 @ [(''cadences'', c)]"
    by (rule odict_set_new)
  have h5: "header_loop t 1 KW_TABLE (?m4 @ [(''cadences'', c)]) = Inr ?m5"
    by (rule header_loop_value[OF fits l1]) (use distinct_keys2 in \<open>simp add: comp_def\<close>)
  have k5: "map fst ?m5 = (([''filename'', ''url'', ''filesize''] @ KW_PRIMARY) @ [''cadences'']) @ KW_TABLE"
    by (simp add: comp_def)
  let ?np = "IVal (int (length (filter (\<lambda>x. 0 < x) xs)))"
  have "''npix'' \<notin> set (map fst ?m5)" unfolding k5 using distinct_keys3 by simp
  then have c5: "odict_set ?m5 ''npix'' ?np = ?m5 @ [(''npix'', ?np)]"
    by (rule odict_set_new)
  have h6: "header_loop t 2 KW_APERTURE (?m5 @ [(''npix'', ?np)])
      = Inr ((?m5 @ [(''npix'', ?np)]) @ map (\<lambda>kw. (kw, header_value (hs ! 2) kw)) KW_APERTURE)"
    by (rule header_loop_value[OF fits l2]) (use distinct_keys3 in \<open>simp add: comp_def\<close>)
  have cad: "cadences t = Inr c"
    using fits l1 naxis2 by (simp add: cadences_def fits_getitem_def)
  have np: "npix t = Inr ?np"
    using fits l2 dat by (simp add: npix_def fits_getitem_def)
  have sz: "os_path_getsize w (tpf_path t) = Inr (length bytes)"
    using fl by (simp add: os_path_getsize_def)
  show ?thesis
    unfolding get_metadata_def Let_def m3 sz sum.case h4 cad c4 h5 np c5 h6 expected_metadata_def
    by simp
qed

lemma length_expected_metadata: "length (expected_metadata t hs n c xs) = 38"
  by (simp add: expected_metadata_def KW_PRIMARY_def KW_TABLE_def KW_APERTURE_def)

lemma keys_expected_metadata: "map fst (expected_metadata t hs n c xs) = META_KEYS"
  by (simp add: expected_metadata_def META_KEYS_def comp_def)

lemma example_tpf_metadata:
  "get_metadata example_world example_tpf =
     Inr (expected_metadata example_tpf example_hdus 4 (IVal 3) [0, 1, 3, 3])"
proof -
  have "get_metadata example_world example_tpf =
     Inr (expected_metadata example_tpf example_hdus (length ''FITS'') (IVal 3) [0, 1, 3, 3])"
    by (rule get_metadata_value)
       (simp_all add: example_tpf_def example_hdus_def example_world_def header_getitem_def)
  moreover have "length ''FITS'' = 4" by simp
  ultimately show ?thesis by (simp only:)
qed

text \<open>Witness of C5: the example file has a record, and its header line is the fixed
  line.\<close>

theorem csv_header_fixed_witness:
  "(\<exists>meta. get_metadata example_world example_tpf = Inr meta) \<and>
   get_csv_header example_world example_tpf = Inr ''filename,url,filesize,object,keplerid,obsmode,campaign,data_rel,channel,module,output,ra_obj,dec_obj,kepmag,cadences,lc_start,lc_end,gain,readnois,meanblck,cdpp3_0,cdpp6_0,cdpp12_0,npix,naxis1,naxis2,crpix1,crpix2,crval1,crval2,cdelt1,cdelt2,pc1_1,pc1_2,pc2_1,pc2_2,crval1p,crval2p''"
  using csv_header_fixed[OF example_tpf_metadata] example_tpf_metadata by blast

lemma distinct_META_KEYS: "distinct META_KEYS"
  using distinct_keys3 unfolding META_KEYS_assoc .

lemma map_of_expected_metadata:
  assumes "(kw, v) \<in> set (expected_metadata t hs n c xs)"
  shows "map_of (expected_metadata t hs n c xs) kw = Some v"
  by (rule map_of_is_SomeI[OF _ assms]) (simp only: keys_expected_metadata distinct_META_KEYS)

lemma field_of_card_expected:
  assumes "(kw, header_value h kw) \<in> set (expected_metadata t hs n c xs)"
  shows "field_of_card (expected_metadata t hs n c xs) h kw"
proof -
  note m = map_of_expected_metadata[OF assms]
  have "cards h kw = None \<Longrightarrow> header_value h kw = SVal []"
    by (simp add: header_value_def)
  moreover have "\<And>v. cards h kw = Some v \<Longrightarrow> v \<noteq> Undefined \<Longrightarrow> header_value h kw = v"
    by (simp add: header_value_def split: fits_value.splits)
  ultimately show ?thesis unfolding field_of_card_def m by auto
qed

lemma header_getitem_present: "cards h kw \<noteq> None \<Longrightarrow> \<exists>c. header_getitem h kw = Inr c"
proof -
  assume "cards h kw \<noteq> None"
  then obtain v where v: "cards h kw = Some v" by blast
  show ?thesis by (cases v) (simp_all add: header_getitem_def v)
qed

lemma get_metadata_no_naxis2:
  assumes fits: "tpf_fits t = Some hs" and len: "2 \<le> length hs"
    and absent: "cards (hs ! 1) ''NAXIS2'' = None"
    and fl: "files w (tpf_path t) = Some bytes"
  shows "get_metadata w t = Inl (KeyError ''NAXIS2'')"
proof -
  let ?m3 = "[(''filename'', SVal (basename (tpf_url t))), (''url'', SVal (tpf_url t)),
        (''filesize'', SVal (format_filesize (length bytes)))]"
  have l0: "0 < length hs" and l1: "1 < length hs" using len by auto
  have m3: "odict_set (odict_set (odict_set [] ''filename'' (SVal (basename (tpf_url t))))
               ''url'' (SVal (tpf_url t))) ''filesize'' (SVal (format_filesize (length bytes))) = ?m3"
    by simp
  have h4: "header_loop t 0 KW_PRIMARY ?m3
      = Inr (?m3 @ map (\<lambda>kw. (kw, header_value (hs ! 0) kw)) KW_PRIMARY)"
    by (rule header_loop_value[OF fits l0]) (use distinct_keys1 in simp)
  have cad: "cadences t = Inl (KeyError ''NAXIS2'')"
    using fits l1 absent by (simp add: cadences_def fits_getitem_def header_getitem_def)
  have sz: "os_path_getsize w (tpf_path t) = Inr (length bytes)"
    using fl by (simp add: os_path_getsize_def)
  show ?thesis
    unfolding get_metadata_def Let_def m3 sz sum.case h4 cad by simp
qed

text \<open>
  Claim C3, as amended. Take an opened file with at least three HDUs, whose second
  extension has a data array and whose size can be read. If its first extension has no
  card \<open>NAXIS2\<close>, \<open>get_metadata\<close> raises \<open>KeyError\<close> and returns no record. If it has
  the card, \<open>get_metadata\<close> returns a record of 38 fields with the fixed keys, and each
  of the 33 fields read through the method \<open>header\<close> follows its own card, whatever
  the other cards are: the empty string when the card is absent, the value of the card
  when it has one. (Nothing is said here of a card without value.)
\<close>

theorem get_metadata_full_record:
  assumes "tpf_fits t = Some hs" and "3 \<le> length hs"
    and "data (hs ! 2) = Some xs"
    and "files w (tpf_path t) = Some bytes"
  shows "(cards (hs ! 1) ''NAXIS2'' = None \<longrightarrow> get_metadata w t = Inl (KeyError ''NAXIS2'')) \<and>
         (cards (hs ! 1) ''NAXIS2'' \<noteq> None \<longrightarrow>
            (\<exists>meta. get_metadata w t = Inr meta \<and> length meta = 38 \<and> map fst meta = META_KEYS \<and>
               (\<forall>kw \<in> set KW_PRIMARY. field_of_card meta (hs ! 0) kw) \<and>
               (\<forall>kw \<in> set KW_TABLE. field_of_card meta (hs ! 1) kw) \<and>
               (\<forall>kw \<in> set KW_APERTURE. field_of_card meta (hs ! 2) kw)))"
proof (intro conjI impI)
  assume "cards (hs ! 1) ''NAXIS2'' = None"
  moreover from assms(2) have "2 \<le> length hs" by simp
  ultimately show "get_metadata w t = Inl (KeyError ''NAXIS2'')"
    using get_metadata_no_naxis2[OF assms(1) _ _ assms(4)] by blast
next
  assume "cards (hs ! 1) ''NAXIS2'' \<noteq> None"
  from header_getitem_present[OF this]
  obtain c where c: "header_getitem (hs ! 1) ''NAXIS2'' = Inr c" ..
  let ?meta = "expected_metadata t hs (length bytes) c xs"
  have m: "get_metadata w t = Inr ?meta"
    by (rule get_metadata_value[OF assms(1,2) c assms(3,4)])
  have p: "\<forall>kw \<in> set KW_PRIMARY. field_of_card ?meta (hs ! 0) kw"
    by (intro ballI field_of_card_expected) (simp add: expected_metadata_def)
  have q: "\<forall>kw \<in> set KW_TABLE. field_of_card ?meta (hs ! 1) kw"
    by (intro ballI field_of_card_expected) (simp add: expected_metadata_def)
  have r: "\<forall>kw \<in> set KW_APERTURE. field_of_card ?meta (hs ! 2) kw"
    by (intro ballI field_of_card_expected) (simp add: expected_metadata_def)
  show "\<exists>meta. get_metadata w t = Inr meta \<and> length meta = 38 \<and> map fst meta = META_KEYS \<and>
               (\<forall>kw \<in> set KW_PRIMARY. field_of_card meta (hs ! 0) kw) \<and>
               (\<forall>kw \<in> set KW_TABLE. field_of_card meta (hs ! 1) kw) \<and>
               (\<forall>kw \<in> set KW_APERTURE. field_of_card meta (hs ! 2) kw)"
    by (rule exI[of _ ?meta])
       (intro conjI m length_expected_metadata keys_expected_metadata p q r)
qed

text \<open>Witness of C3 as amended: the example file \<open>a.fits\<close> has the card \<open>NAXIS2\<close>, its
  card \<open>CAMPAIGN\<close> is absent and its card \<open>OBJECT\<close> has a value; the example file
  \<open>n.fits\<close> has no card \<open>NAXIS2\<close> in its first extension.\<close>

theorem get_metadata_full_record_witness:
  "tpf_fits example_tpf = Some example_hdus \<and> 3 \<le> length example_hdus \<and>
   data (example_hdus ! 2) = Some [0, 1, 3, 3] \<and>
   files example_world (tpf_path example_tpf) = Some ''FITS'' \<and>
   cards (example_hdus ! 1) ''NAXIS2'' \<noteq> None \<and>
   ''CAMPAIGN'' \<in> set KW_PRIMARY \<and> cards (example_hdus ! 0) ''CAMPAIGN'' = None \<and>
   ''OBJECT'' \<in> set KW_PRIMARY \<and>
   cards (example_hdus ! 0) ''OBJECT'' = Some (SVal ''EPIC 202059070'') \<and>
   (\<exists>meta. get_metadata example_world example_tpf = Inr meta \<and> length meta = 38 \<and>
      map_of meta ''CAMPAIGN'' = Some (SVal []) \<and>
      map_of meta ''OBJECT'' = Some (SVal ''EPIC 202059070'')) \<and>
   tpf_fits example_tpf_no_naxis2 = Some example_hdus_no_naxis2 \<and>
   3 \<le> length example_hdus_no_naxis2 \<and>
   data (example_hdus_no_naxis2 ! 2) = Some [0, 1, 3, 3] \<and>
   files example_world (tpf_path example_tpf_no_naxis2) = Some ''FITS without NAXIS2'' \<and>
   cards (example_hdus_no_naxis2 ! 1) ''NAXIS2'' = None \<and>
   get_metadata example_world example_tpf_no_naxis2 = Inl (KeyError ''NAXIS2'')"
proof -
  have h: "tpf_fits example_tpf = Some example_hdus" "3 \<le> length example_hdus"
    "data (example_hdus ! 2) = Some [0, 1, 3, 3]"
    "files example_world (tpf_path example_tpf) = Some ''FITS''"
    by (simp_all add: example_tpf_def example_hdus_def example_world_def)
  have k: "cards (example_hdus ! 1) ''NAXIS2'' \<noteq> None"
    "''CAMPAIGN'' \<in> set KW_PRIMARY" "cards (example_hdus ! 0) ''CAMPAIGN'' = None"
    "''OBJECT'' \<in> set KW_PRIMARY"
    "cards (example_hdus ! 0) ''OBJECT'' = Some (SVal ''EPIC 202059070'')"
    by (simp_all add: example_hdus_def KW_PRIMARY_def)
  from get_metadata_full_record[OF h] k(1) obtain meta where
    m: "get_metadata example_world example_tpf = Inr meta" "length meta = 38"
    and p: "\<forall>kw \<in> set KW_PRIMARY. field_of_card meta (example_hdus ! 0) kw"
    by blast
  from p k(2,3) have c: "map_of meta ''CAMPAIGN'' = Some (SVal [])"
    unfolding field_of_card_def by blast
  from p k(4,5) have o: "map_of meta ''OBJECT'' = Some (SVal ''EPIC 202059070'')"
    unfolding field_of_card_def by blast
  have e: "\<exists>meta. get_metadata example_world example_tpf = Inr meta \<and> length meta = 38 \<and>
      map_of meta ''CAMPAIGN'' = Some (SVal []) \<and>
      map_of meta ''OBJECT'' = Some (SVal ''EPIC 202059070'')"
    using m c o by blast
  have g: "tpf_fits example_tpf_no_naxis2 = Some example_hdus_no_naxis2"
    "3 \<le> length example_hdus_no_naxis2"
    "data (example_hdus_no_naxis2 ! 2) = Some [0, 1, 3, 3]"
    "files example_world (tpf_path example_tpf_no_naxis2) = Some ''FITS without NAXIS2''"
    by (simp_all add: example_tpf_no_naxis2_def example_hdus_no_naxis2_def example_world_def)
  have a: "cards (example_hdus_no_naxis2 ! 1) ''NAXIS2'' = None"
    by (simp add: example_hdus_no_naxis2_def)
  from get_metadata_full_record[OF g] a
  have n: "get_metadata example_world example_tpf_no_naxis2 = Inl (KeyError ''NAXIS2'')"
    by blast
  from h k e g a n show ?thesis by blast
qed

text \<open>
  Claim C3, as stated, fails on the field \<open>cadences\<close>: it is read without the method
  \<open>header\<close>. A file that opens, and whose first extension has no card \<open>NAXIS2\<close>,
  gets no record at all: the lookup raises \<open>KeyError\<close> and the extraction stops.
\<close>

theorem get_metadata_aborts_without_naxis2:
  "fst (TargetPixelFile example_env example_world
          ''/media/gb/kdata/k2/target_pixel_files/c0/n.fits''
          (Some ''http://archive.stsci.edu/missions/k2/target_pixel_files/c0/n.fits''))
     = Inr example_tpf_no_naxis2 \<and>
   cards (example_hdus_no_naxis2 ! 1) ''NAXIS2'' = None \<and>
   get_metadata example_world example_tpf_no_naxis2 = Inl (KeyError ''NAXIS2'')"
  by (simp add: TargetPixelFile_def init_loop.simps fits_open_def example_env_def
      example_world_def example_tpf_no_naxis2_def example_hdus_no_naxis2_def
      MAX_ATTEMPTS_def strip_def isspace_def Let_def
      get_metadata_def os_path_getsize_def KW_PRIMARY_def header_def fits_getitem_def
      header_getitem_def cadences_def)

subsection \<open>The retry loop, the download and the worker\<close>

lemma fits_open_eq:
  "fits_open E w p = (attempt_result E w p 0, w\<lparr>open_calls := open_calls w + 1\<rparr>)"
  by (simp add: fits_open_def attempt_result_def Let_def split: option.splits)

lemma attempt_result_shift:
  "files w2 = files w \<Longrightarrow> open_calls w2 = open_calls w + j \<Longrightarrow>
   attempt_result E w2 p k = attempt_result E w p (j + k)"
  by (simp add: attempt_result_def fits_open_def Let_def add.assoc split: option.splits)

lemma init_loop_done: "\<not> a \<le> MAX_ATTEMPTS \<Longrightarrow> init_loop E p a fv w = (Inr fv, w)"
  by (simp add: init_loop.simps)

lemma init_loop_ok:
  "a \<le> MAX_ATTEMPTS \<Longrightarrow> attempt_result E w p 0 = Inr h \<Longrightarrow>
   init_loop E p a fv w = (Inr (Some h), w\<lparr>open_calls := open_calls w + 1\<rparr>)"
  by (subst init_loop.simps) (simp add: fits_open_eq init_loop_done MAX_ATTEMPTS_def)

lemma init_loop_last:
  "attempt_result E w p 0 = Inl e \<Longrightarrow>
   init_loop E p MAX_ATTEMPTS fv w =
     (Inl e, log_add (w\<lparr>open_calls := open_calls w + 1\<rparr>) (ErrMaxAttempts p))"
  by (subst init_loop.simps) (simp add: fits_open_eq)

lemma init_loop_retry:
  "a < MAX_ATTEMPTS \<Longrightarrow> attempt_result E w p 0 = Inl e \<Longrightarrow>
   init_loop E p a fv w =
     init_loop E p (a + 1) fv
       (time_sleep
          (log_add (log_add (w\<lparr>open_calls := open_calls w + 1\<rparr>) (WarnAttemptFailed p a e))
             (WarnNowSleeping SLEEP_BETWEEN_ATTEMPTS))
          SLEEP_BETWEEN_ATTEMPTS)"
  by (subst init_loop.simps) (simp add: fits_open_eq)

lemma init_loop_summary:
  "a \<le> MAX_ATTEMPTS \<Longrightarrow> init_loop E p a fv w = (res, w') \<Longrightarrow>
   \<exists>n. retry_summary E p a w res w' n"
proof (induction "MAX_ATTEMPTS - a" arbitrary: a w)
  case 0
  then have a: "a = MAX_ATTEMPTS" by simp
  show ?case
  proof (cases "attempt_result E w p 0")
    case (Inl e)
    from "0.prems"(2) have "res = Inl e" "w' = log_add (w\<lparr>open_calls := open_calls w + 1\<rparr>) (ErrMaxAttempts p)"
      unfolding a init_loop_last[OF Inl] by simp_all
    then have "retry_summary E p a w res w' 1"
      using Inl a by (simp add: retry_summary_def log_add_def worker_errors_def is_worker_error_def)
    then show ?thesis ..
  next
    case (Inr h)
    from "0.prems"(2) have "res = Inr (Some h)" "w' = w\<lparr>open_calls := open_calls w + 1\<rparr>"
      unfolding init_loop_ok[OF "0.prems"(1) Inr] by simp_all
    then have "retry_summary E p a w res w' 1"
      using Inr a by (simp add: retry_summary_def worker_errors_def)
    then show ?thesis ..
  qed
next
  case (Suc d)
  then have lt: "a < MAX_ATTEMPTS" by simp
  show ?case
  proof (cases "attempt_result E w p 0")
    case (Inr h)
    from Suc.prems(2) have "res = Inr (Some h)" "w' = w\<lparr>open_calls := open_calls w + 1\<rparr>"
      unfolding init_loop_ok[OF Suc.prems(1) Inr] by simp_all
    then have "retry_summary E p a w res w' 1"
      using Inr lt by (simp add: retry_summary_def worker_errors_def)
    then show ?thesis ..
  next
    case (Inl e)
    let ?w2 = "time_sleep
          (log_add (log_add (w\<lparr>open_calls := open_calls w + 1\<rparr>) (WarnAttemptFailed p a e))
             (WarnNowSleeping SLEEP_BETWEEN_ATTEMPTS))
          SLEEP_BETWEEN_ATTEMPTS"
    have w2: "files ?w2 = files w" "open_calls ?w2 = open_calls w + 1" "net_calls ?w2 = net_calls w"
      "sleeps ?w2 = sleeps w @ [SLEEP_BETWEEN_ATTEMPTS]" "worker_errors ?w2 = worker_errors w"
      by (simp_all add: time_sleep_def log_add_def worker_errors_def is_worker_error_def)
    from Suc.prems(2) have run: "init_loop E p (a + 1) fv ?w2 = (res, w')"
      unfolding init_loop_retry[OF lt Inl] .
    have d: "d = MAX_ATTEMPTS - (a + 1)" using Suc.hyps(2) by simp
    from lt have le: "a + 1 \<le> MAX_ATTEMPTS" by simp
    from Suc.hyps(1)[OF d le run] obtain n where n: "retry_summary E p (a + 1) ?w2 res w' n" ..
    have sh: "\<And>k. attempt_result E ?w2 p k = attempt_result E w p (1 + k)"
      by (rule attempt_result_shift) (simp_all add: time_sleep_def log_add_def)
    from n have n1: "1 \<le> n" by (simp add: retry_summary_def)
    have all: "\<forall>k < Suc n - 1. isl (attempt_result E w p k)"
    proof (intro allI impI)
      fix k assume k: "k < Suc n - 1"
      show "isl (attempt_result E w p k)"
      proof (cases k)
        case 0
        with Inl show ?thesis by simp
      next
        case (Suc j)
        with k n1 have "j < n - 1" by simp
        with n have "isl (attempt_result E ?w2 p j)" by (simp add: retry_summary_def)
        then show ?thesis unfolding sh Suc by simp
      qed
    qed
    have last: "attempt_result E ?w2 p (n - 1) = attempt_result E w p (Suc n - 1)"
      unfolding sh using n1 by simp
    have rep: "sleeps w @ [SLEEP_BETWEEN_ATTEMPTS] @ replicate (n - 1) SLEEP_BETWEEN_ATTEMPTS
        = sleeps w @ replicate (Suc n - 1) SLEEP_BETWEEN_ATTEMPTS"
      using n1 by (cases n) simp_all
    have "retry_summary E p a w res w' (Suc n)"
      unfolding retry_summary_def
      using n all rep unfolding retry_summary_def last w2 by (auto split: sum.splits)
    then show ?thesis ..
  qed
qed

lemma read_loop_frame:
  "read_loop w u p chunks ok = (err, w') \<Longrightarrow>
   net_calls w' = net_calls w \<and> open_calls w' = open_calls w \<and> sleeps w' = sleeps w \<and>
   log w' = log w \<and> (\<forall>q. q \<noteq> p \<longrightarrow> files w' q = files w q)"
proof (induction chunks arbitrary: w)
  case Nil
  then show ?case by (auto split: if_splits)
next
  case (Cons c cs)
  show ?case
  proof (cases "c = []")
    case True
    with Cons.prems show ?thesis by simp
  next
    case False
    with Cons.prems have "read_loop (file_write w p c) u p cs ok = (err, w')" by simp
    from Cons.IH[OF this] show ?thesis
      by (auto simp: file_write_def split: option.splits)
  qed
qed

lemma download_file_frame:
  "download_file E w u p = (err, w') \<Longrightarrow>
   net_calls w' = net_calls w + 1 \<and> open_calls w' = open_calls w \<and> sleeps w' = sleeps w \<and>
   log w' = log w \<and> (\<forall>q. q \<noteq> p \<longrightarrow> files w' q = files w q)"
  by (auto simp: download_file_def Let_def open_write_def
      split: response.splits sum.splits if_splits dest!: read_loop_frame)

lemma acquire_cases:
  "acquire E w u = (err, p, tmp, w') \<Longrightarrow>
   (os_path_exists w (mirror_path u) \<and> err = None \<and> p = mirror_path u \<and> \<not> tmp \<and> w' = w) \<or>
   (\<not> os_path_exists w (mirror_path u) \<and> p = scratch_path u \<and> tmp = (err = None) \<and>
    download_file E w u (scratch_path u) = (err, w'))"
  by (auto simp: acquire_def Let_def split: if_splits prod.splits option.splits)

lemma get_metadata_inverse:
  assumes "get_metadata w t = Inr meta"
  shows "\<exists>hs bytes c xs. tpf_fits t = Some hs \<and> 3 \<le> length hs \<and>
           header_getitem (hs ! 1) ''NAXIS2'' = Inr c \<and> data (hs ! 2) = Some xs \<and>
           files w (tpf_path t) = Some bytes \<and>
           meta = expected_metadata t hs (length bytes) c xs"
proof -
  from assms obtain n c k where
    sz: "os_path_getsize w (tpf_path t) = Inr n" and
    cad: "cadences t = Inr c" and
    np: "npix t = Inr k"
    by (auto simp: get_metadata_def Let_def split: sum.splits)
  from sz obtain bytes where b: "files w (tpf_path t) = Some bytes"
    by (auto simp: os_path_getsize_def split: option.splits)
  from cad obtain hs where hs: "tpf_fits t = Some hs" and l1: "1 < length hs"
    and c: "header_getitem (hs ! 1) ''NAXIS2'' = Inr c"
    by (auto simp: cadences_def fits_getitem_def split: option.splits sum.splits if_splits)
  from np hs obtain xs where l2: "2 < length hs" and xs: "data (hs ! 2) = Some xs"
    by (auto simp: npix_def fits_getitem_def split: option.splits sum.splits if_splits)
  from l2 have l3: "3 \<le> length hs" by simp
  from get_metadata_value[OF hs l3 c xs b] assms
  have "meta = expected_metadata t hs (length bytes) c xs" by simp
  with hs l3 c xs b show ?thesis by blast
qed

lemma set_show_nat: "set (show_nat n) \<subseteq> set ''0123456789''"
proof (induction n rule: show_nat.induct)
  case (1 n)
  have d: "\<And>k. k < 10 \<Longrightarrow> digit_char k \<in> set ''0123456789''"
    unfolding digit_char_def by (rule nth_mem) simp
  show ?case
  proof (cases "n < 10")
    case True
    then show ?thesis using d[of n] by (subst show_nat.simps) simp
  next
    case False
    have "digit_char (n mod 10) \<in> set ''0123456789''" by (rule d) simp
    with 1 False show ?thesis by (subst show_nat.simps) simp
  qed
qed

lemma NL_show_nat: "NL \<notin> set (show_nat n)"
  using set_show_nat[of n] by (auto simp: NL_def)

lemma NL_show_int: "NL \<notin> set (show_int i)"
  using NL_show_nat by (simp add: show_int_def NL_def)

lemma NL_format_filesize: "NL \<notin> set (format_filesize n)"
  using NL_show_nat by (simp add: format_filesize_def Let_def NL_def)

lemma dot_format_filesize: "CHR ''.'' \<in> set (format_filesize n)"
  by (simp add: format_filesize_def Let_def)

lemma set_join: "set (join sep xs) \<subseteq> set sep \<union> \<Union> (set ` set xs)"
  by (induction sep xs rule: join.induct) auto

lemma set_join_mem: "x \<in> set xs \<Longrightarrow> set x \<subseteq> set (join sep xs)"
  by (induction sep xs rule: join.induct) auto

lemma NL_header_value:
  assumes "\<forall>v \<in> ran (cards h). NL \<notin> set (py_str E v)"
  shows "NL \<notin> set (py_str E (header_value h kw))"
proof (cases "cards h kw")
  case None
  then show ?thesis by (simp add: header_value_def py_str_def)
next
  case (Some v)
  then have "v \<in> ran (cards h)" by (auto simp: ran_def)
  with assms have v: "NL \<notin> set (py_str E v)" by blast
  have "header_value h kw = PyNone \<or> header_value h kw = v"
    using Some by (cases v) (simp_all add: header_value_def)
  with v show ?thesis by (auto simp: py_str_def NL_def)
qed

lemma NL_header_getitem:
  assumes "\<forall>v \<in> ran (cards h). NL \<notin> set (py_str E v)" and "header_getitem h kw = Inr c"
  shows "NL \<notin> set (py_str E c)"
proof (cases "cards h kw")
  case None
  with assms(2) show ?thesis by (simp add: header_getitem_def)
next
  case (Some v)
  then have "v \<in> ran (cards h)" by (auto simp: ran_def)
  with assms(1) have v: "NL \<notin> set (py_str E v)" by blast
  have "c = PyNone \<or> c = v"
    using Some assms(2) by (cases v) (auto simp: header_getitem_def)
  with v show ?thesis by (auto simp: py_str_def NL_def)
qed

lemma NL_basename: "NL \<notin> set u \<Longrightarrow> NL \<notin> set (basename u)"
  unfolding basename_def by (metis set_rev set_takeWhileD)

lemma NL_expected_metadata:
  assumes u: "NL \<notin> set (tpf_url t)" and len: "3 \<le> length hs"
    and hs: "\<forall>h \<in> set hs. \<forall>v \<in> ran (cards h). NL \<notin> set (py_str E v)"
    and c: "header_getitem (hs ! 1) ''NAXIS2'' = Inr c"
    and kv: "(kw, v) \<in> set (expected_metadata t hs n c xs)"
  shows "NL \<notin> set (py_str E v)"
proof -
  have h: "\<And>i. i < 3 \<Longrightarrow> \<forall>v \<in> ran (cards (hs ! i)). NL \<notin> set (py_str E v)"
  proof -
    fix i :: nat assume "i < 3"
    with len have "hs ! i \<in> set hs" by simp
    with hs show "\<forall>v \<in> ran (cards (hs ! i)). NL \<notin> set (py_str E v)" by blast
  qed
  have cc: "NL \<notin> set (py_str E c)" by (rule NL_header_getitem[OF h c]) simp
  from kv have "v = SVal (basename (tpf_url t)) \<or> v = SVal (tpf_url t)
      \<or> v = SVal (format_filesize n) \<or> v = c
      \<or> v = IVal (int (length (filter (\<lambda>x. 0 < x) xs)))
      \<or> (\<exists>k. v = header_value (hs ! 0) k) \<or> (\<exists>k. v = header_value (hs ! 1) k)
      \<or> (\<exists>k. v = header_value (hs ! 2) k)"
    by (auto simp: expected_metadata_def)
  moreover have "NL \<notin> set (py_str E (SVal (basename (tpf_url t))))"
    using NL_basename[OF u] by (simp add: py_str_def)
  moreover have "NL \<notin> set (py_str E (SVal (tpf_url t)))"
    using u by (simp add: py_str_def)
  moreover have "NL \<notin> set (py_str E (SVal (format_filesize n)))"
    using NL_format_filesize by (simp add: py_str_def)
  moreover have "NL \<notin> set (py_str E (IVal (int (length (filter (\<lambda>x. 0 < x) xs)))))"
    using NL_show_int by (simp add: py_str_def)
  moreover have "\<And>k. NL \<notin> set (py_str E (header_value (hs ! 0) k))"
    by (rule NL_header_value[OF h]) simp
  moreover have "\<And>k. NL \<notin> set (py_str E (header_value (hs ! 1) k))"
    by (rule NL_header_value[OF h]) simp
  moreover have "\<And>k. NL \<notin> set (py_str E (header_value (hs ! 2) k))"
    by (rule NL_header_value[OF h]) simp
  ultimately show ?thesis using cc by blast
qed

lemma csv_row_one_line:
  assumes u: "NL \<notin> set (tpf_url t)" and len: "3 \<le> length hs"
    and hs: "\<forall>h \<in> set hs. \<forall>v \<in> ran (cards h). NL \<notin> set (py_str E v)"
    and c: "header_getitem (hs ! 1) ''NAXIS2'' = Inr c"
  shows "NL \<notin> set (join '','' (map (\<lambda>(kw, v). py_str E v) (expected_metadata t hs n c xs)))"
proof
  assume "NL \<in> set (join '','' (map (\<lambda>(kw, v). py_str E v) (expected_metadata t hs n c xs)))"
  with set_join[of "'',''"] have
    "NL \<in> set '','' \<union> \<Union> (set ` set (map (\<lambda>(kw, v). py_str E v) (expected_metadata t hs n c xs)))"
    by blast
  then obtain kw v where "(kw, v) \<in> set (expected_metadata t hs n c xs)" "NL \<in> set (py_str E v)"
    by (auto simp: NL_def)
  with NL_expected_metadata[OF u len hs c] show False by blast
qed

lemma csv_row_has_dot:
  "CHR ''.'' \<in> set (join '','' (map (\<lambda>(kw, v). py_str E v) (expected_metadata t hs n c xs)))"
proof -
  have "(''filesize'', SVal (format_filesize n)) \<in> set (expected_metadata t hs n c xs)"
    by (simp add: expected_metadata_def)
  then have "format_filesize n \<in> set (map (\<lambda>(kw, v). py_str E v) (expected_metadata t hs n c xs))"
    by (force simp: py_str_def)
  from set_join_mem[OF this] dot_format_filesize show ?thesis by blast
qed

lemma CSV_HEADER_no_dot: "CHR ''.'' \<notin> set CSV_HEADER"
  unfolding csv_header_text by simp

lemma CSV_HEADER_one_line: "NL \<notin> set CSV_HEADER"
  unfolding csv_header_text by (simp add: NL_def)

lemma attempt_result_decoded:
  "attempt_result E w p k = Inr h \<Longrightarrow> \<exists>bytes. files w p = Some bytes \<and> fits_decode E bytes = Some h"
  by (auto simp: attempt_result_def fits_open_def Let_def split: option.splits if_splits)

lemma TargetPixelFile_summary:
  assumes "TargetPixelFile E w p uo = (res, w')"
  shows "\<exists>n. retry_summary E p 1 w (case res of Inl e \<Rightarrow> Inl e | Inr t \<Rightarrow> Inr (tpf_fits t)) w' n"
    and "res = Inr t \<Longrightarrow> tpf_path t = strip p \<and> tpf_url t = (case uo of None \<Rightarrow> strip p | Some v \<Rightarrow> v)"
proof -
  obtain r w1 where l: "init_loop E p 1 None w = (r, w1)" by (cases "init_loop E p 1 None w")
  have le: "(1::nat) \<le> MAX_ATTEMPTS" by (simp add: MAX_ATTEMPTS_def)
  from init_loop_summary[OF le l] obtain n where n: "retry_summary E p 1 w r w1 n" ..
  from assms l have "w' = w1" "(case res of Inl e \<Rightarrow> Inl e | Inr t \<Rightarrow> Inr (tpf_fits t)) = r"
    by (auto simp: TargetPixelFile_def Let_def split: sum.splits)
  with n show "\<exists>n. retry_summary E p 1 w (case res of Inl e \<Rightarrow> Inl e | Inr t \<Rightarrow> Inr (tpf_fits t)) w' n"
    by auto
  show "res = Inr t \<Longrightarrow> tpf_path t = strip p \<and> tpf_url t = (case uo of None \<Rightarrow> strip p | Some v \<Rightarrow> v)"
    using assms l by (auto simp: TargetPixelFile_def Let_def split: sum.splits)
qed

lemma read_rows_frame:
  assumes "read_rows E w p u hdr = (err, out, w')"
  shows "files w' = files w \<and> net_calls w' = net_calls w \<and> worker_errors w' = worker_errors w"
proof -
  obtain res w1 where t: "TargetPixelFile E w p (Some u) = (res, w1)"
    by (cases "TargetPixelFile E w p (Some u)")
  from TargetPixelFile_summary(1)[OF t] have
    "files w1 = files w \<and> net_calls w1 = net_calls w \<and> worker_errors w1 = worker_errors w"
    by (auto simp: retry_summary_def)
  moreover from assms t have "w' = w1"
    by (auto simp: read_rows_def split: sum.splits if_splits)
  ultimately show ?thesis by simp
qed

lemma read_rows_cases:
  assumes "read_rows E w p u hdr = (err, out, w')"
  shows "(err \<noteq> None \<and> out = []) \<or>
         (err = None \<and>
          (\<exists>t meta bytes hs. tpf_url t = u \<and> files w p = Some bytes \<and> fits_decode E bytes = Some hs \<and>
             tpf_fits t = Some hs \<and> get_metadata w' t = Inr meta \<and>
             out = (if hdr then CSV_HEADER @ [NL] else [])
                     @ join '','' (map (\<lambda>(kw, v). py_str E v) meta) @ [NL]))"
proof -
  obtain res w1 where t: "TargetPixelFile E w p (Some u) = (res, w1)"
    by (cases "TargetPixelFile E w p (Some u)")
  show ?thesis
  proof (cases res)
    case (Inl e)
    with assms t show ?thesis by (auto simp: read_rows_def)
  next
    case (Inr tp)
    from TargetPixelFile_summary(1)[OF t] Inr obtain n where
      "retry_summary E p 1 w (Inr (tpf_fits tp)) w1 n" by auto
    then have "tpf_fits tp = (case attempt_result E w p (n - 1) of Inl e \<Rightarrow> None | Inr h \<Rightarrow> Some h)"
      and "tpf_fits tp \<noteq> None"
      unfolding retry_summary_def sum.case by blast+
    then obtain h where "attempt_result E w p (n - 1) = Inr h" "tpf_fits tp = Some h"
      by (cases "attempt_result E w p (n - 1)") auto
    with attempt_result_decoded obtain bytes where
      b: "files w p = Some bytes" "fits_decode E bytes = Some h" "tpf_fits tp = Some h"
      by blast
    from TargetPixelFile_summary(2)[OF t Inr] have u: "tpf_url tp = u" by simp
    from assms t Inr have w1: "w' = w1"
      by (auto simp: read_rows_def split: sum.splits if_splits)
    show ?thesis
    proof (cases "get_metadata w1 tp")
      case (Inl e)
      with assms t Inr show ?thesis
        by (cases hdr) (auto simp: read_rows_def get_csv_header_def get_csv_row_def)
    next
      case (Inr meta)
      have hd: "get_csv_header w1 tp = Inr CSV_HEADER" by (rule get_csv_header_ok[OF Inr])
      have rw: "get_csv_row E w1 tp = Inr (join '','' (map (\<lambda>(kw, v). py_str E v) meta))"
        using Inr by (simp add: get_csv_row_def)
      from assms t \<open>res = Inr tp\<close> have
        "err = None \<and> out = (if hdr then CSV_HEADER @ [NL] else [])
                     @ join '','' (map (\<lambda>(kw, v). py_str E v) meta) @ [NL]"
        by (cases hdr) (simp_all add: read_rows_def hd rw)
      with u b Inr w1 show ?thesis by blast
    qed
  qed
qed

lemma read_rows_output:
  assumes sl: "single_line_values E" and nu: "NL \<notin> set u"
    and rr: "read_rows E w p u hdr = (None, out, w')"
  shows "\<exists>row. NL \<notin> set row \<and> row \<noteq> CSV_HEADER \<and>
           out = (if hdr then CSV_HEADER @ [NL] else []) @ row @ [NL]"
proof -
  from read_rows_cases[OF rr] obtain t meta bytes hs where
    u: "tpf_url t = u" and d: "fits_decode E bytes = Some hs" and f: "tpf_fits t = Some hs"
    and m: "get_metadata w' t = Inr meta"
    and out: "out = (if hdr then CSV_HEADER @ [NL] else [])
                     @ join '','' (map (\<lambda>(kw, v). py_str E v) meta) @ [NL]"
    by auto
  from get_metadata_inverse[OF m] f obtain b c xs where
    len: "3 \<le> length hs" and c: "header_getitem (hs ! 1) ''NAXIS2'' = Inr c"
    and meta: "meta = expected_metadata t hs (length (b::string)) c xs"
    by fastforce
  from sl d have cl: "\<forall>h \<in> set hs. \<forall>v \<in> ran (cards h). NL \<notin> set (py_str E v)"
    unfolding single_line_values_def by blast
  let ?row = "join '','' (map (\<lambda>(kw, v). py_str E v) meta)"
  from nu u have "NL \<notin> set (tpf_url t)" by simp
  from csv_row_one_line[OF this len cl c] have 1: "NL \<notin> set ?row" unfolding meta .
  have "CHR ''.'' \<in> set ?row" unfolding meta by (rule csv_row_has_dot)
  with CSV_HEADER_no_dot have 2: "?row \<noteq> CSV_HEADER" by metis
  from 1 2 out show ?thesis by blast
qed

lemma finally_block_frame:
  "finally_block E w u p tmp = w' \<Longrightarrow>
   net_calls w' = net_calls w \<and> open_calls w' = open_calls w \<and> sleeps w' = sleeps w \<and>
   worker_errors w' = worker_errors w \<and> (\<forall>q. q \<noteq> p \<longrightarrow> files w' q = files w q) \<and>
   (\<not> tmp \<longrightarrow> w' = w)"
  by (auto simp: finally_block_def os_unlink_def log_add_def worker_errors_def is_worker_error_def
      split: if_splits sum.splits)

lemma get_metadata_row_unfold:
  "get_metadata_row E w url0 hdr =
     (case try_block E w (strip url0) hdr of
        (err, out, p, tmp, w1) \<Rightarrow>
          (Some out,
           finally_block E (case err of None \<Rightarrow> w1 | Some e \<Rightarrow> log_add w1 (ErrWorker (strip url0) e))
             (strip url0) p tmp))"
  by (simp add: get_metadata_row_def IGNORE_SHORT_CADENCE_def Let_def)

lemma try_block_summary:
  assumes "try_block E w u hdr = (err, out, p, tmp, w1)"
  shows "worker_errors w1 = worker_errors w \<and>
    (\<forall>q. q \<noteq> scratch_path u \<longrightarrow> files w1 q = files w q) \<and>
    (tmp \<longrightarrow> p = scratch_path u) \<and>
    (err \<noteq> None \<longrightarrow> out = []) \<and>
    (os_path_exists w (mirror_path u) \<longrightarrow>
       net_calls w1 = net_calls w \<and> files w1 = files w \<and> \<not> tmp \<and> p = mirror_path u) \<and>
    (\<not> os_path_exists w (mirror_path u) \<longrightarrow> net_calls w1 = net_calls w + 1) \<and>
    (err = None \<and> single_line_values E \<and> NL \<notin> set u \<longrightarrow>
       (\<exists>row. NL \<notin> set row \<and> row \<noteq> CSV_HEADER \<and>
          out = (if hdr then CSV_HEADER @ [NL] else []) @ row @ [NL]))"
proof -
  obtain e0 p0 t0 w0 where a: "acquire E w u = (e0, p0, t0, w0)"
    by (cases "acquire E w u") auto
  from acquire_cases[OF a] have ac:
    "(os_path_exists w (mirror_path u) \<and> e0 = None \<and> p0 = mirror_path u \<and> \<not> t0 \<and> w0 = w) \<or>
     (\<not> os_path_exists w (mirror_path u) \<and> p0 = scratch_path u \<and> t0 = (e0 = None) \<and>
      download_file E w u (scratch_path u) = (e0, w0))" .
  have w0: "worker_errors w0 = worker_errors w \<and> (\<forall>q. q \<noteq> scratch_path u \<longrightarrow> files w0 q = files w q)
      \<and> (os_path_exists w (mirror_path u) \<longrightarrow> net_calls w0 = net_calls w \<and> files w0 = files w)
      \<and> (\<not> os_path_exists w (mirror_path u) \<longrightarrow> net_calls w0 = net_calls w + 1)"
    using ac by (auto simp: worker_errors_def dest!: download_file_frame)
  have pt: "p = p0" "tmp = t0"
    using assms a by (auto simp: try_block_def split: option.splits prod.splits)
  show ?thesis
  proof (cases e0)
    case (Some e)
    with assms a have "err = Some e" "out = []" "w1 = w0"
      by (auto simp: try_block_def)
    with w0 ac pt Some show ?thesis by auto
  next
    case None
    with assms a have rr: "read_rows E w0 p0 u hdr = (err, out, w1)"
      by (auto simp: try_block_def split: prod.splits)
    note fr = read_rows_frame[OF rr]
    from read_rows_cases[OF rr] have e: "err \<noteq> None \<longrightarrow> out = []" by auto
    have o: "err = None \<and> single_line_values E \<and> NL \<notin> set u \<longrightarrow>
           (\<exists>row. NL \<notin> set row \<and> row \<noteq> CSV_HEADER \<and>
              out = (if hdr then CSV_HEADER @ [NL] else []) @ row @ [NL])"
      using read_rows_output[of E u w0 p0 hdr out w1] rr by auto
    from w0 fr e o ac pt None show ?thesis by auto
  qed
qed

lemma worker_summary:
  assumes "get_metadata_row E w url0 hdr = (r, w')"
  shows "\<exists>out. r = Some out \<and>
     (\<forall>q. q \<noteq> scratch_path (strip url0) \<longrightarrow> files w' q = files w q) \<and>
     (os_path_exists w (mirror_path (strip url0)) \<longrightarrow> net_calls w' = net_calls w \<and> files w' = files w) \<and>
     (\<not> os_path_exists w (mirror_path (strip url0)) \<longrightarrow> net_calls w' = net_calls w + 1) \<and>
     ((fst (try_block E w (strip url0) hdr) \<noteq> None \<and> out = [] \<and>
       worker_errors w' = worker_errors w + 1) \<or>
      (fst (try_block E w (strip url0) hdr) = None \<and> worker_errors w' = worker_errors w \<and>
       (single_line_values E \<and> NL \<notin> set (strip url0) \<longrightarrow>
          (\<exists>row. NL \<notin> set row \<and> row \<noteq> CSV_HEADER \<and>
             out = (if hdr then CSV_HEADER @ [NL] else []) @ row @ [NL]))))"
proof -
  let ?u = "strip url0"
  obtain err out p tmp w1 where tb: "try_block E w ?u hdr = (err, out, p, tmp, w1)"
    by (cases "try_block E w ?u hdr") auto
  note ts = try_block_summary[OF tb]
  let ?w2 = "case err of None \<Rightarrow> w1 | Some e \<Rightarrow> log_add w1 (ErrWorker ?u e)"
  have w2: "files ?w2 = files w1" "net_calls ?w2 = net_calls w1"
    "worker_errors ?w2 = worker_errors w1 + (if err = None then 0 else 1)"
    by (auto simp: log_add_def worker_errors_def is_worker_error_def split: option.splits)
  from assms have r: "r = Some out" and w': "w' = finally_block E ?w2 ?u p tmp"
    unfolding get_metadata_row_unfold tb by simp_all
  note fb = finally_block_frame[OF w'[symmetric]]
  have fr: "\<forall>q. q \<noteq> scratch_path ?u \<longrightarrow> files w' q = files w q"
  proof (cases tmp)
    case True
    with ts have "p = scratch_path ?u" by simp
    with fb ts w2 show ?thesis by simp
  next
    case False
    with fb ts w2 show ?thesis by simp
  qed
  have hit: "os_path_exists w (mirror_path ?u) \<longrightarrow> net_calls w' = net_calls w \<and> files w' = files w"
    using fb ts w2 by auto
  have miss: "\<not> os_path_exists w (mirror_path ?u) \<longrightarrow> net_calls w' = net_calls w + 1"
    using fb ts w2 by auto
  have "fst (try_block E w ?u hdr) = err" using tb by simp
  then show ?thesis using r fr hit miss fb ts w2 by (cases err) auto
qed

text \<open>
  Claim C6. When the path obtained from the (stripped) URL by replacing the remote
  prefix with \<open>DATA_STORE\<close> exists, the first part of the worker leaves with that path,
  with \<open>tmp_download\<close> false, without an exception and in an unchanged world; the whole
  call of \<open>get_metadata_row\<close> makes no network call and leaves all files as they were.
\<close>

theorem local_mirror_hit:
  assumes "os_path_exists w (mirror_path (strip url0))"
  shows "acquire E w (strip url0) = (None, mirror_path (strip url0), False, w) \<and>
         net_calls (snd (get_metadata_row E w url0 hdr)) = net_calls w \<and>
         files (snd (get_metadata_row E w url0 hdr)) = files w"
proof -
  have "get_metadata_row E w url0 hdr =
      (fst (get_metadata_row E w url0 hdr), snd (get_metadata_row E w url0 hdr))" by simp
  from worker_summary[OF this] assms
  have "net_calls (snd (get_metadata_row E w url0 hdr)) = net_calls w \<and>
         files (snd (get_metadata_row E w url0 hdr)) = files w" by blast
  with assms show ?thesis by (simp add: acquire_def)
qed

lemma example_mirror_path_a:
  "mirror_path (strip (''http://archive.stsci.edu/missions/k2/target_pixel_files/c0/a.fits'' @ [NL]))
     = ''/media/gb/kdata/k2/target_pixel_files/c0/a.fits''"
  by (simp add: strip_def isspace_def NL_def mirror_path_def MAST_PREFIX_def DATA_STORE_def
      startswith_def)

text \<open>Witness of C6: \<open>a.fits\<close> is in the mirror of the example world.\<close>

theorem local_mirror_hit_witness:
  "os_path_exists example_world
     (mirror_path (strip (''http://archive.stsci.edu/missions/k2/target_pixel_files/c0/a.fits'' @ [NL]))) \<and>
   acquire example_env example_world
     (strip (''http://archive.stsci.edu/missions/k2/target_pixel_files/c0/a.fits'' @ [NL]))
     = (None, ''/media/gb/kdata/k2/target_pixel_files/c0/a.fits'', False, example_world) \<and>
   net_calls (snd (get_metadata_row example_env example_world
     (''http://archive.stsci.edu/missions/k2/target_pixel_files/c0/a.fits'' @ [NL]) True)) = 0"
proof -
  have h: "os_path_exists example_world
     (mirror_path (strip (''http://archive.stsci.edu/missions/k2/target_pixel_files/c0/a.fits'' @ [NL])))"
    unfolding example_mirror_path_a by (simp add: os_path_exists_def example_world_def)
  from local_mirror_hit[OF h, of example_env True] h show ?thesis
    unfolding example_mirror_path_a by (simp add: example_world_def)
qed

subsection \<open>Cleanup of the scratch file, and what is retried\<close>

lemma example_strip_c:
  "strip (''http://archive.stsci.edu/missions/k2/target_pixel_files/c0/c.fits'' @ [NL])
     = ''http://archive.stsci.edu/missions/k2/target_pixel_files/c0/c.fits''"
  by (simp add: strip_def isspace_def NL_def)

lemma example_mirror_path_c:
  "mirror_path ''http://archive.stsci.edu/missions/k2/target_pixel_files/c0/c.fits''
     = ''/media/gb/kdata/k2/target_pixel_files/c0/c.fits''"
  by (simp add: mirror_path_def MAST_PREFIX_def DATA_STORE_def startswith_def)

lemma example_scratch_path_c:
  "scratch_path ''http://archive.stsci.edu/missions/k2/target_pixel_files/c0/c.fits''
     = ''/data/tmp/c.fits''"
  by (simp add: scratch_path_eq TMPDIR_def basename_def)

text \<open>
  Claim C1 does not hold of the code. \<open>tmp_download\<close> is set only after
  \<open>download_file\<close> has returned, so a transfer that breaks after \<open>download_file\<close> has
  created the scratch file leaves the \<open>finally\<close> clause with nothing to delete. In the
  example world, the transfer of \<open>c.fits\<close> breaks after the first chunk: the worker
  returns the empty string, and the scratch file, absent before, stays behind with that
  chunk in it.
\<close>

theorem partial_download_left_behind:
  "files example_world ''/data/tmp/c.fits'' = None \<and>
   fst (get_metadata_row example_env example_world
          (''http://archive.stsci.edu/missions/k2/target_pixel_files/c0/c.fits'' @ [NL]) False)
     = Some [] \<and>
   files (snd (get_metadata_row example_env example_world
          (''http://archive.stsci.edu/missions/k2/target_pixel_files/c0/c.fits'' @ [NL]) False))
     ''/data/tmp/c.fits'' = Some ''FI''"
  unfolding get_metadata_row_unfold example_strip_c try_block_def acquire_def
    example_mirror_path_c example_scratch_path_c
  by (simp add: example_world_def example_env_def os_path_exists_def download_file_def
      open_write_def file_write_def finally_block_def log_add_def Let_def)

lemma read_loop_keeps:
  "files w p \<noteq> None \<Longrightarrow> files (snd (read_loop w u p chunks ok)) p \<noteq> None"
  by (induction chunks arbitrary: w) (auto simp: file_write_def split: option.splits)

lemma download_file_creates:
  assumes "download_file E w u p = (None, w1)"
  shows "files w1 p \<noteq> None"
proof -
  from assms obtain chunks ok w2 where
    "open_write E (w\<lparr>net_calls := net_calls w + 1\<rparr>) p = Inr w2"
    "read_loop w2 u p chunks ok = (None, w1)"
    by (auto simp: download_file_def Let_def split: response.splits sum.splits)
  moreover from this have "files w2 p \<noteq> None"
    by (auto simp: open_write_def split: if_splits)
  ultimately show ?thesis using read_loop_keeps[of w2 p u chunks ok] by simp
qed

text \<open>On the other paths the clause does its work: once \<open>download_file\<close> has
  returned, the scratch file is gone when the worker returns, whatever happened after
  (unless the deletion itself is refused).\<close>

lemma complete_download_removed:
  assumes miss: "\<not> os_path_exists w (mirror_path (strip url0))"
    and dl: "download_file E w (strip url0) (scratch_path (strip url0)) = (None, w0)"
    and allowed: "\<not> unlink_denied E (scratch_path (strip url0))"
  shows "files (snd (get_metadata_row E w url0 hdr)) (scratch_path (strip url0)) = None"
proof -
  let ?u = "strip url0" and ?p = "scratch_path (strip url0)"
  obtain err out w1 where rr: "read_rows E w0 ?p ?u hdr = (err, out, w1)"
    by (cases "read_rows E w0 ?p ?u hdr") auto
  from read_rows_frame[OF rr] download_file_creates[OF dl] have f: "files w1 ?p \<noteq> None" by simp
  have tb: "try_block E w ?u hdr = (err, out, ?p, True, w1)"
    using miss dl rr by (simp add: try_block_def acquire_def Let_def)
  let ?w2 = "case err of None \<Rightarrow> w1 | Some e \<Rightarrow> log_add w1 (ErrWorker ?u e)"
  have "files ?w2 ?p \<noteq> None" using f by (simp add: log_add_def split: option.splits)
  then have "files (finally_block E ?w2 ?u ?p True) ?p = None"
    using allowed by (auto simp: finally_block_def os_unlink_def)
  then show ?thesis unfolding get_metadata_row_unfold tb by simp
qed

lemma download_failure_no_retry:
  assumes miss: "\<not> os_path_exists w (mirror_path (strip url0))"
    and dl: "fst (download_file E w (strip url0) (scratch_path (strip url0))) \<noteq> None"
  shows "fst (get_metadata_row E w url0 hdr) = Some [] \<and>
         sleeps (snd (get_metadata_row E w url0 hdr)) = sleeps w \<and>
         open_calls (snd (get_metadata_row E w url0 hdr)) = open_calls w"
proof -
  let ?u = "strip url0" and ?p = "scratch_path (strip url0)"
  obtain e w0 where d: "download_file E w ?u ?p = (Some e, w0)"
    using dl by (cases "download_file E w ?u ?p") auto
  have tb: "try_block E w ?u hdr = (Some e, [], ?p, False, w0)"
    using miss d by (simp add: try_block_def acquire_def Let_def)
  from download_file_frame[OF d] show ?thesis
    unfolding get_metadata_row_unfold tb by (simp add: finally_block_def log_add_def)
qed

text \<open>
  What the code retries. When the mirror path does not exist, \<open>get_metadata_row\<close>
  makes exactly one network call; if the download fails, the worker returns the empty
  string without any sleep and without opening anything. The only retry loop is that of
  \<open>TargetPixelFile.__init__\<close>, around \<open>fits.open\<close> of a path that is by then a local
  file: as \<open>retry_summary\<close> says, between 1 and \<open>MAX_ATTEMPTS\<close> opens, one sleep of
  \<open>SLEEP_BETWEEN_ATTEMPTS\<close> seconds after each failed open but the last, and the
  error of the last open raised when all \<open>MAX_ATTEMPTS\<close> have failed.
\<close>

lemma fetch_once_open_retried:
  "(\<not> os_path_exists w (mirror_path (strip url0)) \<longrightarrow>
      net_calls (snd (get_metadata_row E w url0 hdr)) = net_calls w + 1 \<and>
      (fst (download_file E w (strip url0) (scratch_path (strip url0))) \<noteq> None \<longrightarrow>
         fst (get_metadata_row E w url0 hdr) = Some [] \<and>
         sleeps (snd (get_metadata_row E w url0 hdr)) = sleeps w \<and>
         open_calls (snd (get_metadata_row E w url0 hdr)) = open_calls w)) \<and>
   (TargetPixelFile E w p uo = (res, w') \<longrightarrow>
      retry_summary E p 1 w (case res of Inl e \<Rightarrow> Inl e | Inr t \<Rightarrow> Inr (tpf_fits t)) w'
        (open_calls w' - open_calls w))"
proof (intro conjI impI)
  assume miss: "\<not> os_path_exists w (mirror_path (strip url0))"
  have "get_metadata_row E w url0 hdr =
      (fst (get_metadata_row E w url0 hdr), snd (get_metadata_row E w url0 hdr))" by simp
  from worker_summary[OF this] miss
  show "net_calls (snd (get_metadata_row E w url0 hdr)) = net_calls w + 1" by blast
  assume dl: "fst (download_file E w (strip url0) (scratch_path (strip url0))) \<noteq> None"
  from download_failure_no_retry[OF miss dl, of hdr]
  show "fst (get_metadata_row E w url0 hdr) = Some []"
    and "sleeps (snd (get_metadata_row E w url0 hdr)) = sleeps w"
    and "open_calls (snd (get_metadata_row E w url0 hdr)) = open_calls w" by simp_all
next
  assume t: "TargetPixelFile E w p uo = (res, w')"
  from TargetPixelFile_summary(1)[OF t] obtain n where
    n: "retry_summary E p 1 w (case res of Inl e \<Rightarrow> Inl e | Inr t \<Rightarrow> Inr (tpf_fits t)) w' n" ..
  then have "open_calls w' - open_calls w = n" by (simp add: retry_summary_def)
  with n show "retry_summary E p 1 w (case res of Inl e \<Rightarrow> Inl e | Inr t \<Rightarrow> Inr (tpf_fits t)) w'
        (open_calls w' - open_calls w)" by simp
qed

lemma example_strip_d:
  "strip (''http://archive.stsci.edu/missions/k2/target_pixel_files/c0/d.fits'' @ [NL]) = ''http://archive.stsci.edu/missions/k2/target_pixel_files/c0/d.fits''"
  by (simp add: strip_def isspace_def NL_def)

lemma example_mirror_path_d:
  "mirror_path ''http://archive.stsci.edu/missions/k2/target_pixel_files/c0/d.fits'' = ''/media/gb/kdata/k2/target_pixel_files/c0/d.fits''"
  by (simp add: mirror_path_def MAST_PREFIX_def DATA_STORE_def startswith_def)

lemma example_scratch_path_d: "scratch_path ''http://archive.stsci.edu/missions/k2/target_pixel_files/c0/d.fits'' = ''/data/tmp/d.fits''"
  by (simp add: scratch_path_eq TMPDIR_def basename_def)

lemma example_miss_d: "\<not> os_path_exists example_world (mirror_path (strip (''http://archive.stsci.edu/missions/k2/target_pixel_files/c0/d.fits'' @ [NL])))"
  unfolding example_strip_d example_mirror_path_d
  by (simp add: os_path_exists_def example_world_def)

lemma example_download_d:
  "download_file example_env example_world ''http://archive.stsci.edu/missions/k2/target_pixel_files/c0/d.fits'' ''/data/tmp/d.fits''
     = (Some (URLError ''http://archive.stsci.edu/missions/k2/target_pixel_files/c0/d.fits''), example_world\<lparr>net_calls := 1\<rparr>)"
  by (simp add: download_file_def example_env_def example_world_def Let_def)

text \<open>
  Claim C2 does not hold of the code. \<open>MAX_ATTEMPTS\<close> is, by its comment, the number
  of times the script tries to obtain and open a file, but \<open>download_file\<close> is called
  outside the retry loop, so the remote fetch is made once. In the example network
  \<open>d.fits\<close> is refused at the first call and would be served at the second; the mirror
  has no such file. The worker makes the one call, does not sleep, logs the failure and
  returns the empty string.
\<close>

theorem fetch_not_retried:
  "\<not> os_path_exists example_world (mirror_path (strip (''http://archive.stsci.edu/missions/k2/target_pixel_files/c0/d.fits'' @ [NL]))) \<and>
   urlopen_result example_env (strip (''http://archive.stsci.edu/missions/k2/target_pixel_files/c0/d.fits'' @ [NL])) 0 = Refused \<and>
   urlopen_result example_env (strip (''http://archive.stsci.edu/missions/k2/target_pixel_files/c0/d.fits'' @ [NL])) 1 = Stream [''FITS''] True \<and>
   get_metadata_row example_env example_world (''http://archive.stsci.edu/missions/k2/target_pixel_files/c0/d.fits'' @ [NL]) False
     = (Some [], example_world\<lparr>net_calls := 1, log := [ErrWorker ''http://archive.stsci.edu/missions/k2/target_pixel_files/c0/d.fits'' (URLError ''http://archive.stsci.edu/missions/k2/target_pixel_files/c0/d.fits'')]\<rparr>) \<and>
   sleeps (example_world\<lparr>net_calls := 1, log := [ErrWorker ''http://archive.stsci.edu/missions/k2/target_pixel_files/c0/d.fits'' (URLError ''http://archive.stsci.edu/missions/k2/target_pixel_files/c0/d.fits'')]\<rparr>) = []"
proof -
  have "get_metadata_row example_env example_world (''http://archive.stsci.edu/missions/k2/target_pixel_files/c0/d.fits'' @ [NL]) False
     = (Some [], example_world\<lparr>net_calls := 1, log := [ErrWorker ''http://archive.stsci.edu/missions/k2/target_pixel_files/c0/d.fits'' (URLError ''http://archive.stsci.edu/missions/k2/target_pixel_files/c0/d.fits'')]\<rparr>)"
    unfolding get_metadata_row_unfold example_strip_d try_block_def acquire_def Let_def
    using example_miss_d[unfolded example_strip_d]
    by (simp add: example_scratch_path_d example_download_d finally_block_def)
       (simp add: log_add_def example_world_def)
  moreover have "urlopen_result example_env (strip (''http://archive.stsci.edu/missions/k2/target_pixel_files/c0/d.fits'' @ [NL])) 0 = Refused"
    "urlopen_result example_env (strip (''http://archive.stsci.edu/missions/k2/target_pixel_files/c0/d.fits'' @ [NL])) 1 = Stream [''FITS''] True"
    unfolding example_strip_d by (simp_all add: example_env_def)
  ultimately show ?thesis using example_miss_d by (simp add: example_world_def)
qed

lemma retry_all_fail:
  "retry_summary E p 1 w r w' n \<Longrightarrow> (\<And>k. attempt_result E w p k = Inl e) \<Longrightarrow>
   r = Inl e \<and> n = MAX_ATTEMPTS"
  by (cases r) (auto simp: retry_summary_def)

lemma example_attempts_g: "attempt_result example_env example_world ''/media/gb/kdata/k2/target_pixel_files/c0/g.fits'' k = Inl (NotFits ''/media/gb/kdata/k2/target_pixel_files/c0/g.fits'')"
  by (simp add: attempt_result_def fits_open_def example_env_def example_world_def Let_def)

text \<open>In the example world: the download of \<open>d.fits\<close> fails after one call and no
  sleep; the open of \<open>g.fits\<close>, which is not a FITS file, is tried 50 times with 49
  sleeps of 30 seconds, and the last error is raised.\<close>

lemma fetch_once_open_retried_example:
  "\<not> os_path_exists example_world (mirror_path (strip (''http://archive.stsci.edu/missions/k2/target_pixel_files/c0/d.fits'' @ [NL]))) \<and>
   fst (download_file example_env example_world (strip (''http://archive.stsci.edu/missions/k2/target_pixel_files/c0/d.fits'' @ [NL])) (scratch_path (strip (''http://archive.stsci.edu/missions/k2/target_pixel_files/c0/d.fits'' @ [NL]))))
     \<noteq> None \<and>
   net_calls (snd (get_metadata_row example_env example_world (''http://archive.stsci.edu/missions/k2/target_pixel_files/c0/d.fits'' @ [NL]) False)) = 1 \<and>
   sleeps (snd (get_metadata_row example_env example_world (''http://archive.stsci.edu/missions/k2/target_pixel_files/c0/d.fits'' @ [NL]) False)) = [] \<and>
   fst (TargetPixelFile example_env example_world ''/media/gb/kdata/k2/target_pixel_files/c0/g.fits'' None) = Inl (NotFits ''/media/gb/kdata/k2/target_pixel_files/c0/g.fits'') \<and>
   open_calls (snd (TargetPixelFile example_env example_world ''/media/gb/kdata/k2/target_pixel_files/c0/g.fits'' None)) = 50 \<and>
   sleeps (snd (TargetPixelFile example_env example_world ''/media/gb/kdata/k2/target_pixel_files/c0/g.fits'' None)) = replicate 49 30"
proof -
  let ?X = "TargetPixelFile example_env example_world ''/media/gb/kdata/k2/target_pixel_files/c0/g.fits'' None"
  let ?r = "case fst ?X of Inl e \<Rightarrow> Inl e | Inr t \<Rightarrow> Inr (tpf_fits t)"
  let ?n = "open_calls (snd ?X) - open_calls example_world"
  note inst = fetch_once_open_retried[of example_world "''http://archive.stsci.edu/missions/k2/target_pixel_files/c0/d.fits'' @ [NL]" example_env False
      "''/media/gb/kdata/k2/target_pixel_files/c0/g.fits''" None
      "fst ?X" "snd ?X"]
  have dl: "fst (download_file example_env example_world (strip (''http://archive.stsci.edu/missions/k2/target_pixel_files/c0/d.fits'' @ [NL]))
      (scratch_path (strip (''http://archive.stsci.edu/missions/k2/target_pixel_files/c0/d.fits'' @ [NL])))) \<noteq> None"
    unfolding example_strip_d example_scratch_path_d example_download_d by simp
  from inst example_miss_d dl have
    a: "net_calls (snd (get_metadata_row example_env example_world (''http://archive.stsci.edu/missions/k2/target_pixel_files/c0/d.fits'' @ [NL]) False)) = 1"
    and b: "sleeps (snd (get_metadata_row example_env example_world (''http://archive.stsci.edu/missions/k2/target_pixel_files/c0/d.fits'' @ [NL]) False)) = []"
    by (simp_all add: example_world_def)
  from inst have rs: "retry_summary example_env ''/media/gb/kdata/k2/target_pixel_files/c0/g.fits'' 1 example_world ?r (snd ?X) ?n" by simp
  from retry_all_fail[OF rs] example_attempts_g
  have e: "?r = Inl (NotFits ''/media/gb/kdata/k2/target_pixel_files/c0/g.fits'')"
    and n: "?n = 50"
    by (simp_all add: MAX_ATTEMPTS_def)
  from rs have oc: "open_calls (snd ?X) = open_calls example_world + ?n"
    and sl: "sleeps (snd ?X) = sleeps example_world @ replicate (?n - 1) SLEEP_BETWEEN_ATTEMPTS"
    unfolding retry_summary_def by blast+
  from e have f: "fst ?X = Inl (NotFits ''/media/gb/kdata/k2/target_pixel_files/c0/g.fits'')" by (cases "fst ?X") auto
  from oc n have o: "open_calls (snd ?X) = 50" by (simp add: example_world_def)
  from sl n have s: "sleeps (snd ?X) = replicate 49 30"
    by (simp add: example_world_def SLEEP_BETWEEN_ATTEMPTS_def)
  from example_miss_d dl a b f o s show ?thesis by simp
qed

subsection \<open>The table\<close>

lemma lines_from_line:
  "NL \<notin> set l \<Longrightarrow> lines_from cur (l @ NL # rest) = (cur @ l @ [NL]) # lines_from [] rest"
  by (induction l arbitrary: cur) auto

lemma lines_from_lines_text:
  "lines_text ls tx \<Longrightarrow> lines_from [] tx = map (\<lambda>l. l @ [NL]) ls"
proof (induction ls arbitrary: tx)
  case Nil
  then show ?case by (simp add: lines_text_def)
next
  case (Cons l ls)
  let ?rest = "concat (map (\<lambda>l. l @ [NL]) ls)"
  from Cons.prems have t: "tx = l @ NL # ?rest" and l: "NL \<notin> set l"
    and r: "lines_text ls ?rest"
    by (simp_all add: lines_text_def)
  from Cons.IH[OF r] show ?case unfolding t lines_from_line[OF l] by simp
qed

lemma data_rows_lines_text:
  "lines_text ls tx \<Longrightarrow> data_rows tx = length (filter (\<lambda>l. l \<noteq> CSV_HEADER) ls)"
  by (simp add: data_rows_def lines_from_lines_text filter_map comp_def)

lemma lines_text_append:
  "lines_text ls s \<Longrightarrow> lines_text ms t \<Longrightarrow> lines_text (ls @ ms) (s @ t)"
  by (auto simp: lines_text_def)

lemma lines_text_Nil: "lines_text [] []"
  by (simp add: lines_text_def)

lemma set_strip: "set (strip s) \<subseteq> set s"
  unfolding strip_def by (metis set_dropWhileD set_rev subsetI)

lemma dropWhile_all: "\<forall>x \<in> set s. P x \<Longrightarrow> dropWhile P s = []"
  by (induction s) auto

lemma strip_snoc_space: "isspace c \<Longrightarrow> strip (s @ [c]) = strip s"
proof (cases "\<forall>x \<in> set s. isspace x")
  case True
  assume "isspace c"
  with True have "\<forall>x \<in> set (s @ [c]). isspace x" by simp
  note a = dropWhile_all[OF this] and b = dropWhile_all[OF True]
  show ?thesis unfolding strip_def a b ..
next
  case False
  assume c: "isspace c"
  from False have "dropWhile isspace (s @ [c]) = dropWhile isspace s @ [c]"
    by (simp add: dropWhile_append)
  with c show ?thesis by (simp add: strip_def)
qed

lemma isspace_NL: "isspace NL"
  by (simp add: isspace_def NL_def)

lemma lines_from_shape:
  "l \<in> set (lines_from cur s) \<Longrightarrow> NL \<notin> set cur \<Longrightarrow>
   \<exists>b. NL \<notin> set b \<and> (l = b @ [NL] \<or> l = b)"
proof (induction s arbitrary: cur)
  case Nil
  then show ?case by (auto split: if_splits)
next
  case (Cons c s)
  show ?case
  proof (cases "c = NL")
    case True
    with Cons.prems have "l = cur @ [NL] \<or> l \<in> set (lines_from [] s)" by simp
    then show ?thesis
    proof
      assume "l = cur @ [NL]" with Cons.prems(2) show ?thesis by blast
    next
      assume "l \<in> set (lines_from [] s)"
      from Cons.IH[OF this] show ?thesis by simp
    qed
  next
    case False
    with Cons.prems have "l \<in> set (lines_from (cur @ [c]) s)" "NL \<notin> set (cur @ [c])" by auto
    from Cons.IH[OF this] show ?thesis .
  qed
qed

lemma readlines_strip_one_line:
  assumes "u \<in> set (readlines tx)"
  shows "NL \<notin> set (strip u)"
proof -
  from assms lines_from_shape[of u "[]"] obtain b where
    b: "NL \<notin> set b" and u: "u = b @ [NL] \<or> u = b"
    by (auto simp: readlines_def)
  from u have "strip u = strip b" using strip_snoc_space[OF isspace_NL] by auto
  with set_strip[of b] b show ?thesis by auto
qed

lemma file_write_empty: "file_write w p [] = w"
  by (cases "files w p") (simp_all add: file_write_def map_upd_triv)

lemma file_write_twice: "file_write (file_write w p a) p b = file_write w p (a @ b)"
  by (cases "files w p") (simp_all add: file_write_def)

lemma write_results_eq: "write_results w p rs = file_write w p (results_text rs)"
proof (induction rs arbitrary: w)
  case Nil
  then show ?case by (simp add: results_text_def file_write_empty)
next
  case (Cons r rs)
  show ?case
  proof (cases r)
    case None
    with Cons show ?thesis by (simp add: results_text_def)
  next
    case (Some s)
    with Cons show ?thesis by (simp add: results_text_def file_write_twice)
  qed
qed

lemma file_write_frame:
  "worker_errors (file_write w p s) = worker_errors w \<and>
   net_calls (file_write w p s) = net_calls w \<and>
   (\<forall>q. q \<noteq> p \<longrightarrow> files (file_write w p s) q = files w q) \<and>
   (\<forall>c. files w p = Some c \<longrightarrow> files (file_write w p s) p = Some (c @ s))"
  by (cases "files w p") (simp_all add: file_write_def worker_errors_def)

lemma startswith_scratch_path: "startswith (scratch_path u) TMPDIR"
  by (simp add: scratch_path_eq startswith_def)

lemma not_scratch_path: "\<not> startswith p TMPDIR \<Longrightarrow> p \<notin> scratch_paths us"
  using startswith_scratch_path by (auto simp: scratch_paths_def)

lemma worker_lines:
  assumes sl: "single_line_values E" and nu: "NL \<notin> set (strip u0)"
    and run: "get_metadata_row E w u0 hdr = (r, w')"
  shows "\<exists>out ls. r = Some out \<and> lines_text ls out \<and>
           (\<forall>q. q \<noteq> scratch_path (strip u0) \<longrightarrow> files w' q = files w q) \<and>
           ((ls = [] \<and> worker_errors w' = worker_errors w + 1) \<or>
            (\<exists>row. row \<noteq> CSV_HEADER \<and> ls = (if hdr then [CSV_HEADER] else []) @ [row] \<and>
               worker_errors w' = worker_errors w))"
proof -
  from worker_summary[OF run] obtain out where
    r: "r = Some out" and
    fr: "\<forall>q. q \<noteq> scratch_path (strip u0) \<longrightarrow> files w' q = files w q" and
    c: "(out = [] \<and> worker_errors w' = worker_errors w + 1) \<or>
        (worker_errors w' = worker_errors w \<and>
         (\<exists>row. NL \<notin> set row \<and> row \<noteq> CSV_HEADER \<and>
             out = (if hdr then CSV_HEADER @ [NL] else []) @ row @ [NL]))"
    using sl nu by blast
  from c show ?thesis
  proof
    assume "out = [] \<and> worker_errors w' = worker_errors w + 1"
    with r fr lines_text_Nil show ?thesis by blast
  next
    assume "worker_errors w' = worker_errors w \<and>
         (\<exists>row. NL \<notin> set row \<and> row \<noteq> CSV_HEADER \<and>
             out = (if hdr then CSV_HEADER @ [NL] else []) @ row @ [NL])"
    then obtain row where we: "worker_errors w' = worker_errors w" and
      row: "NL \<notin> set row" "row \<noteq> CSV_HEADER"
      and out: "out = (if hdr then CSV_HEADER @ [NL] else []) @ row @ [NL]"
      by blast
    have "lines_text ((if hdr then [CSV_HEADER] else []) @ [row]) out"
      using row(1) out CSV_HEADER_one_line by (simp add: lines_text_def)
    with r fr we row(2) show ?thesis by blast
  qed
qed

lemma pool_map_summary:
  assumes sl: "single_line_values E"
  shows "\<forall>u \<in> set us. NL \<notin> set (strip u) \<Longrightarrow> pool_map E w us = (rs, w') \<Longrightarrow>
    \<exists>ls. lines_text ls (results_text rs) \<and> CSV_HEADER \<notin> set ls \<and>
         worker_errors w' + length ls = worker_errors w + length us \<and>
         length ls \<le> length us \<and>
         (\<forall>q. q \<notin> scratch_paths us \<longrightarrow> files w' q = files w q)"
proof (induction us arbitrary: w rs w')
  case Nil
  then show ?case using lines_text_Nil by (auto simp: results_text_def)
next
  case (Cons u us)
  obtain r w1 where g: "get_metadata_row E w u False = (r, w1)"
    by (cases "get_metadata_row E w u False")
  obtain rs1 w2 where p: "pool_map E w1 us = (rs1, w2)" by (cases "pool_map E w1 us")
  from Cons.prems(2) g p have rs: "rs = r # rs1" and w': "w' = w2" by simp_all
  from Cons.prems(1) have nu: "NL \<notin> set (strip u)" and nus: "\<forall>u \<in> set us. NL \<notin> set (strip u)"
    by simp_all
  from worker_lines[OF sl nu g] obtain out l1 where
    r: "r = Some out" and l1: "lines_text l1 out" and
    f1: "\<forall>q. q \<noteq> scratch_path (strip u) \<longrightarrow> files w1 q = files w q" and
    c1: "(l1 = [] \<and> worker_errors w1 = worker_errors w + 1) \<or>
         (\<exists>row. row \<noteq> CSV_HEADER \<and> l1 = [row] \<and> worker_errors w1 = worker_errors w)"
    by auto
  from Cons.IH[OF nus p] obtain l2 where
    l2: "lines_text l2 (results_text rs1)" and h2: "CSV_HEADER \<notin> set l2" and
    n2: "worker_errors w2 + length l2 = worker_errors w1 + length us" and
    m2: "length l2 \<le> length us" and
    f2: "\<forall>q. q \<notin> scratch_paths us \<longrightarrow> files w2 q = files w1 q"
    by blast
  have t: "results_text rs = out @ results_text rs1"
    unfolding rs r by (simp add: results_text_def)
  have a: "lines_text (l1 @ l2) (results_text rs)"
    unfolding t by (rule lines_text_append[OF l1 l2])
  have b: "CSV_HEADER \<notin> set (l1 @ l2)" using c1 h2 by auto
  have c: "worker_errors w' + length (l1 @ l2) = worker_errors w + length (u # us)"
    using c1 n2 w' by auto
  have d: "\<forall>q. q \<notin> scratch_paths (u # us) \<longrightarrow> files w' q = files w q"
    using f1 f2 w' by (auto simp: scratch_paths_def)
  have e: "length (l1 @ l2) \<le> length (u # us)" using c1 m2 by auto
  from a b c e d show ?case by blast
qed

lemma completion_order_perm:
  "distinct (completion_order sched n) \<and> set (completion_order sched n) = {0 ..< n}"
  by (auto simp: completion_order_def)

lemma length_completion_order: "length (completion_order sched n) = n"
proof -
  from completion_order_perm[of sched n]
  have d: "distinct (completion_order sched n)"
    and s: "set (completion_order sched n) = {0 ..< n}" by blast+
  have "length (completion_order sched n) = card (set (completion_order sched n))"
    using distinct_card[OF d] by (rule sym)
  also have "\<dots> = n" unfolding s by simp
  finally show ?thesis .
qed

lemma imap_unordered_summary:
  assumes sl: "single_line_values E" and nus: "\<forall>u \<in> set us. NL \<notin> set (strip u)"
    and run: "imap_unordered E sched w us = (rs, w')"
  shows "\<exists>ls. lines_text ls (results_text rs) \<and> CSV_HEADER \<notin> set ls \<and>
         worker_errors w' + length ls = worker_errors w + length us \<and>
         length ls \<le> length us \<and>
         (\<forall>q. q \<notin> scratch_paths us \<longrightarrow> files w' q = files w q)"
proof -
  let ?vs = "map (\<lambda>i. us ! i) (completion_order sched (length us))"
  have sub: "set ?vs \<subseteq> set us" using completion_order_perm[of sched "length us"] by auto
  with nus have nvs: "\<forall>u \<in> set ?vs. NL \<notin> set (strip u)" by blast
  from run have p: "pool_map E w ?vs = (rs, w')" by (simp add: imap_unordered_def)
  from pool_map_summary[OF sl nvs p] obtain ls where
    "lines_text ls (results_text rs)" "CSV_HEADER \<notin> set ls"
    "worker_errors w' + length ls = worker_errors w + length ?vs"
    "length ls \<le> length ?vs"
    "\<forall>q. q \<notin> scratch_paths ?vs \<longrightarrow> files w' q = files w q"
    by blast
  moreover have "scratch_paths ?vs \<subseteq> scratch_paths us"
    using sub unfolding scratch_paths_def by blast
  ultimately show ?thesis using length_completion_order by auto
qed

lemma pool_map_frame:
  "pool_map E w us = (rs, w') \<Longrightarrow> \<forall>q. q \<notin> scratch_paths us \<longrightarrow> files w' q = files w q"
proof (induction us arbitrary: w rs w')
  case Nil
  then show ?case by simp
next
  case (Cons u us)
  obtain r w1 where g: "get_metadata_row E w u False = (r, w1)"
    by (cases "get_metadata_row E w u False")
  obtain rs1 w2 where p: "pool_map E w1 us = (rs1, w2)" by (cases "pool_map E w1 us")
  from Cons.prems g p have w': "w' = w2" by simp
  from worker_summary[OF g] have
    f1: "\<forall>q. q \<noteq> scratch_path (strip u) \<longrightarrow> files w1 q = files w q" by blast
  from Cons.IH[OF p] f1 w' show ?case by (auto simp: scratch_paths_def)
qed

lemma imap_unordered_frame:
  assumes "imap_unordered E sched w us = (rs, w')"
  shows "\<forall>q. q \<notin> scratch_paths us \<longrightarrow> files w' q = files w q"
proof -
  let ?vs = "map (\<lambda>i. us ! i) (completion_order sched (length us))"
  have "set ?vs \<subseteq> set us" using completion_order_perm[of sched "length us"] by auto
  then have "scratch_paths ?vs \<subseteq> scratch_paths us" unfolding scratch_paths_def by blast
  moreover from assms have "pool_map E w ?vs = (rs, w')" by (simp add: imap_unordered_def)
  from pool_map_frame[OF this] have "\<forall>q. q \<notin> scratch_paths ?vs \<longrightarrow> files w' q = files w q" .
  ultimately show ?thesis by blast
qed

lemma wmt_unfold:
  assumes "\<not> create_denied E out"
  shows "write_metadata_table E sched w inp out =
     (case files (w\<lparr>files := (files w)(out \<mapsto> [])\<rparr>) inp of
        None \<Rightarrow> (Some (IOError inp), w\<lparr>files := (files w)(out \<mapsto> [])\<rparr>)
      | Some tx \<Rightarrow>
          (case readlines tx of
             [] \<Rightarrow> (Some IndexError, w\<lparr>files := (files w)(out \<mapsto> [])\<rparr>)
           | u0 # rest \<Rightarrow>
               (case get_metadata_row E (w\<lparr>files := (files w)(out \<mapsto> [])\<rparr>) u0 True of
                  (None, w2) \<Rightarrow> (Some TypeError, w2)
                | (Some s, w2) \<Rightarrow>
                    (case imap_unordered E sched (file_write w2 out s) rest of
                       (rs, w3) \<Rightarrow> (None, write_results w3 out rs)))))"
  using assms by (simp add: write_metadata_table_def open_write_def)

lemma wmt_run:
  assumes sl: "single_line_values E" and nd: "\<not> create_denied E out"
    and inp: "files w inp = Some tx" and ne: "inp \<noteq> out"
    and ns: "\<not> startswith out TMPDIR" and first: "readlines tx = u0 # rest"
  obtains (run) s0 w2 rs w3 l0 ls1 where
     "get_metadata_row E (w\<lparr>files := (files w)(out \<mapsto> [])\<rparr>) u0 True = (Some s0, w2)"
     "imap_unordered E sched (file_write w2 out s0) rest = (rs, w3)"
     "write_metadata_table E sched w inp out = (None, write_results w3 out rs)"
     "files (write_results w3 out rs) out = Some (s0 @ results_text rs)"
     "worker_errors (write_results w3 out rs) = worker_errors w3"
     "lines_text l0 s0" "lines_text ls1 (results_text rs)" "CSV_HEADER \<notin> set ls1"
     "worker_errors w3 + length ls1 = worker_errors w2 + length rest"
     "length ls1 \<le> length rest"
     "(fst (try_block E (w\<lparr>files := (files w)(out \<mapsto> [])\<rparr>) (strip u0) True) \<noteq> None \<and>
       l0 = [] \<and> s0 = [] \<and> worker_errors w2 = worker_errors w + 1) \<or>
      (fst (try_block E (w\<lparr>files := (files w)(out \<mapsto> [])\<rparr>) (strip u0) True) = None \<and>
       (\<exists>row. row \<noteq> CSV_HEADER \<and> l0 = [CSV_HEADER, row]) \<and> worker_errors w2 = worker_errors w)"
proof -
  let ?w1 = "w\<lparr>files := (files w)(out \<mapsto> [])\<rparr>"
  have we1: "worker_errors ?w1 = worker_errors w" by (simp add: worker_errors_def)
  have urls: "\<forall>u \<in> set (u0 # rest). NL \<notin> set (strip u)"
    using readlines_strip_one_line[of _ tx] first by simp
  then have nu0: "NL \<notin> set (strip u0)" and nrest: "\<forall>u \<in> set rest. NL \<notin> set (strip u)"
    by simp_all
  obtain r0 w2 where g: "get_metadata_row E ?w1 u0 True = (r0, w2)"
    by (cases "get_metadata_row E ?w1 u0 True")
  from worker_summary[OF g] sl nu0 obtain s0 where
    r0: "r0 = Some s0" and
    f0: "\<forall>q. q \<noteq> scratch_path (strip u0) \<longrightarrow> files w2 q = files ?w1 q" and
    c0: "(fst (try_block E ?w1 (strip u0) True) \<noteq> None \<and> s0 = [] \<and>
          worker_errors w2 = worker_errors ?w1 + 1) \<or>
         (fst (try_block E ?w1 (strip u0) True) = None \<and> worker_errors w2 = worker_errors ?w1 \<and>
          (\<exists>row. NL \<notin> set row \<and> row \<noteq> CSV_HEADER \<and> s0 = (CSV_HEADER @ [NL]) @ row @ [NL]))"
    by auto
  have "out \<noteq> scratch_path (strip u0)" using ns startswith_scratch_path by metis
  with f0 have o2: "files w2 out = Some []" by simp
  let ?w2' = "file_write w2 out s0"
  from file_write_frame[of w2 out s0] o2 have
    o2': "files ?w2' out = Some s0" and we2': "worker_errors ?w2' = worker_errors w2"
    by simp_all
  obtain rs w3 where im: "imap_unordered E sched ?w2' rest = (rs, w3)"
    by (cases "imap_unordered E sched ?w2' rest")
  from imap_unordered_summary[OF sl nrest im] obtain ls1 where
    l1: "lines_text ls1 (results_text rs)" and h1: "CSV_HEADER \<notin> set ls1" and
    n1: "worker_errors w3 + length ls1 = worker_errors ?w2' + length rest" and
    m1: "length ls1 \<le> length rest" and
    f1: "\<forall>q. q \<notin> scratch_paths rest \<longrightarrow> files w3 q = files ?w2' q"
    by blast
  from f1 not_scratch_path[OF ns] o2' have o3: "files w3 out = Some s0" by simp
  let ?w' = "write_results w3 out rs"
  from file_write_frame[of w3 out "results_text rs"] o3 have
    o': "files ?w' out = Some (s0 @ results_text rs)" and we': "worker_errors ?w' = worker_errors w3"
    unfolding write_results_eq by simp_all
  have run: "write_metadata_table E sched w inp out = (None, ?w')"
    unfolding wmt_unfold[OF nd] using inp ne first g r0 im by simp
  have "\<exists>l0. lines_text l0 s0 \<and>
     ((fst (try_block E ?w1 (strip u0) True) \<noteq> None \<and> l0 = [] \<and> s0 = [] \<and> worker_errors w2 = worker_errors w + 1) \<or>
      (fst (try_block E ?w1 (strip u0) True) = None \<and>
       (\<exists>row. row \<noteq> CSV_HEADER \<and> l0 = [CSV_HEADER, row]) \<and> worker_errors w2 = worker_errors w))"
    using c0
  proof
    assume "fst (try_block E ?w1 (strip u0) True) \<noteq> None \<and> s0 = [] \<and>
          worker_errors w2 = worker_errors ?w1 + 1"
    with we1 lines_text_Nil show ?thesis by auto
  next
    assume "fst (try_block E ?w1 (strip u0) True) = None \<and> worker_errors w2 = worker_errors ?w1 \<and>
          (\<exists>row. NL \<notin> set row \<and> row \<noteq> CSV_HEADER \<and> s0 = (CSV_HEADER @ [NL]) @ row @ [NL])"
    then obtain row where ok: "fst (try_block E ?w1 (strip u0) True) = None"
      "worker_errors w2 = worker_errors ?w1" "NL \<notin> set row" "row \<noteq> CSV_HEADER"
      "s0 = (CSV_HEADER @ [NL]) @ row @ [NL]" by blast
    then have "lines_text [CSV_HEADER, row] s0"
      using CSV_HEADER_one_line by (simp add: lines_text_def)
    with ok we1 show ?thesis by auto
  qed
  then obtain l0 where l0: "lines_text l0 s0" and c: "(fst (try_block E ?w1 (strip u0) True) \<noteq> None \<and> l0 = [] \<and> s0 = [] \<and> worker_errors w2 = worker_errors w + 1) \<or>
      (fst (try_block E ?w1 (strip u0) True) = None \<and>
       (\<exists>row. row \<noteq> CSV_HEADER \<and> l0 = [CSV_HEADER, row]) \<and> worker_errors w2 = worker_errors w)"
    by blast
  show ?thesis
    by (rule that[OF g[unfolded r0] im run o' we' l0 l1 h1 n1[unfolded we2'] m1 c])
qed


lemma filter_no_header: "CSV_HEADER \<notin> set ls \<Longrightarrow> filter (\<lambda>l. l \<noteq> CSV_HEADER) ls = ls"
  by (induction ls) auto


text \<open>
  Claim C9. In such a run over a non-empty URL list, no exception leaves
  \<open>write_metadata_table\<close>, whether the first URL fails or not, and the header line is
  in the output exactly when the \<open>try\<close> block of the first URL has not raised. When
  it has raised, the output is exactly the text of the results of the pool, run from
  the world the first worker has left: it has no header line, and its data rows and the
  failures logged by the pool add up to the number of the remaining URLs.
\<close>

theorem header_only_after_first_success:
  assumes "single_line_values E" and "\<not> create_denied E output_fn"
    and "files w input_fn = Some tx" and "input_fn \<noteq> output_fn"
    and "\<not> startswith output_fn TMPDIR"
    and "readlines tx = u0 # rest"
  shows "fst (write_metadata_table E sched w input_fn output_fn) = None \<and>
    (\<exists>content. files (snd (write_metadata_table E sched w input_fn output_fn)) output_fn = Some content \<and>
       (CSV_HEADER @ [NL] \<in> set (lines_from [] content) \<longleftrightarrow>
          fst (try_block E (w\<lparr>files := (files w)(output_fn \<mapsto> [])\<rparr>) (strip u0) True) = None) \<and>
       (fst (try_block E (w\<lparr>files := (files w)(output_fn \<mapsto> [])\<rparr>) (strip u0) True) \<noteq> None \<longrightarrow>
          content = results_text (fst (imap_unordered E sched
             (snd (get_metadata_row E (w\<lparr>files := (files w)(output_fn \<mapsto> [])\<rparr>) u0 True)) rest)) \<and>
          worker_errors (snd (write_metadata_table E sched w input_fn output_fn)) + data_rows content
            = worker_errors (snd (get_metadata_row E (w\<lparr>files := (files w)(output_fn \<mapsto> [])\<rparr>) u0 True))
              + length rest))"
  using assms
proof (cases rule: wmt_run[where sched = sched])
  case (run s0 w2 rs w3 l0 ls1)
  let ?w1 = "w\<lparr>files := (files w)(output_fn \<mapsto> [])\<rparr>"
  let ?content = "s0 @ results_text rs"
  have lt: "lines_text (l0 @ ls1) ?content" by (rule lines_text_append[OF run(6,7)])
  have "set (lines_from [] ?content) = (\<lambda>l. l @ [NL]) ` set (l0 @ ls1)"
    unfolding lines_from_lines_text[OF lt] by (simp add: image_Un)
  then have "CSV_HEADER @ [NL] \<in> set (lines_from [] ?content) \<longleftrightarrow> CSV_HEADER \<in> set (l0 @ ls1)"
    by auto
  also have "\<dots> \<longleftrightarrow> fst (try_block E ?w1 (strip u0) True) = None"
    using run(8,11) by auto
  finally have hd: "CSV_HEADER @ [NL] \<in> set (lines_from [] ?content) \<longleftrightarrow>
          fst (try_block E ?w1 (strip u0) True) = None" .
  have fl: "fst (try_block E ?w1 (strip u0) True) \<noteq> None \<longrightarrow>
          ?content = results_text (fst (imap_unordered E sched (snd (get_metadata_row E ?w1 u0 True)) rest)) \<and>
          worker_errors (write_results w3 output_fn rs) + data_rows ?content
            = worker_errors (snd (get_metadata_row E ?w1 u0 True)) + length rest"
  proof
    assume "fst (try_block E ?w1 (strip u0) True) \<noteq> None"
    with run(11) have e: "l0 = []" "s0 = []" by auto
    from run(2) have im: "imap_unordered E sched w2 rest = (rs, w3)"
      unfolding e file_write_empty .
    have "data_rows ?content = length (filter (\<lambda>l. l \<noteq> CSV_HEADER) (l0 @ ls1))"
      by (rule data_rows_lines_text[OF lt])
    then have "data_rows ?content = length ls1"
      unfolding e using filter_no_header[OF run(8)] by simp
    with run(1,5,9) im e show "?content = results_text (fst (imap_unordered E sched (snd (get_metadata_row E ?w1 u0 True)) rest)) \<and>
          worker_errors (write_results w3 output_fn rs) + data_rows ?content
            = worker_errors (snd (get_metadata_row E ?w1 u0 True)) + length rest"
      by simp
  qed
  show ?thesis
    unfolding run(3) fst_conv snd_conv
    by (intro conjI refl exI[of _ ?content] run(4) hd fl)
qed

lemma wmt_truncated:
  assumes "\<not> create_denied E out"
  shows "write_metadata_table E sched w inp out
     = write_metadata_table E sched (w\<lparr>files := (files w)(out \<mapsto> [])\<rparr>) inp out"
proof -
  have eq: "(w\<lparr>files := (files w)(out \<mapsto> [])\<rparr>)
      \<lparr>files := (files (w\<lparr>files := (files w)(out \<mapsto> [])\<rparr>))(out \<mapsto> [])\<rparr>
      = w\<lparr>files := (files w)(out \<mapsto> [])\<rparr>" by simp
  show ?thesis unfolding wmt_unfold[OF assms] eq by (rule refl)
qed

text \<open>
  Claim C10. When the output can be opened: if the input file is missing, the
  exception leaves the function with the output already emptied, the output being
  opened before the input is read; the run is the same whatever the output file held
  before (or whether it was there at all), so nothing of a prior output survives; after
  the run every file other than the output and the scratch paths of the URLs read
  (which the workers write in \<open>download_file\<close>, not the aggregation) is as it was;
  and the writes of the aggregation itself, \<open>file_write\<close> and \<open>write_results\<close> on the
  output path, change no other file.
\<close>

theorem output_truncated_first:
  assumes "\<not> create_denied E output_fn"
  shows "(files w input_fn = None \<and> input_fn \<noteq> output_fn \<longrightarrow>
      write_metadata_table E sched w input_fn output_fn
        = (Some (IOError input_fn), w\<lparr>files := (files w)(output_fn \<mapsto> [])\<rparr>)) \<and>
   write_metadata_table E sched (w\<lparr>files := (files w)(output_fn \<mapsto> old)\<rparr>) input_fn output_fn
     = write_metadata_table E sched (w\<lparr>files := (files w)(output_fn := None)\<rparr>) input_fn output_fn \<and>
   (\<forall>q. q \<noteq> output_fn \<and>
        q \<notin> scratch_paths (case files (w\<lparr>files := (files w)(output_fn \<mapsto> [])\<rparr>) input_fn of
                             None \<Rightarrow> [] | Some tx \<Rightarrow> readlines tx) \<longrightarrow>
        files (snd (write_metadata_table E sched w input_fn output_fn)) q = files w q) \<and>
   (\<forall>w0 s q. q \<noteq> output_fn \<longrightarrow> files (file_write w0 output_fn s) q = files w0 q) \<and>
   (\<forall>w0 rs q. q \<noteq> output_fn \<longrightarrow> files (write_results w0 output_fn rs) q = files w0 q)"
proof (intro conjI)
  show "\<forall>w0 s q. q \<noteq> output_fn \<longrightarrow> files (file_write w0 output_fn s) q = files w0 q"
    using file_write_frame by blast
  show "\<forall>w0 rs q. q \<noteq> output_fn \<longrightarrow> files (write_results w0 output_fn rs) q = files w0 q"
    unfolding write_results_eq using file_write_frame by blast
  show "files w input_fn = None \<and> input_fn \<noteq> output_fn \<longrightarrow>
      write_metadata_table E sched w input_fn output_fn
        = (Some (IOError input_fn), w\<lparr>files := (files w)(output_fn \<mapsto> [])\<rparr>)"
    unfolding wmt_unfold[OF assms] by simp
  show "write_metadata_table E sched (w\<lparr>files := (files w)(output_fn \<mapsto> old)\<rparr>) input_fn output_fn
     = write_metadata_table E sched (w\<lparr>files := (files w)(output_fn := None)\<rparr>) input_fn output_fn"
    using wmt_truncated[OF assms, of sched "w\<lparr>files := (files w)(output_fn \<mapsto> old)\<rparr>" input_fn]
      wmt_truncated[OF assms, of sched "w\<lparr>files := (files w)(output_fn := None)\<rparr>" input_fn]
    by simp
  let ?w1 = "w\<lparr>files := (files w)(output_fn \<mapsto> [])\<rparr>"
  show "\<forall>q. q \<noteq> output_fn \<and>
        q \<notin> scratch_paths (case files ?w1 input_fn of None \<Rightarrow> [] | Some tx \<Rightarrow> readlines tx) \<longrightarrow>
        files (snd (write_metadata_table E sched w input_fn output_fn)) q = files w q"
  proof (cases "files ?w1 input_fn")
    case None
    then show ?thesis unfolding wmt_unfold[OF assms] by simp
  next
    case (Some tx)
    show ?thesis
    proof (cases "readlines tx")
      case Nil
      with Some show ?thesis unfolding wmt_unfold[OF assms] by simp
    next
      case (Cons u0 rest)
      obtain r0 w2 where g: "get_metadata_row E ?w1 u0 True = (r0, w2)"
        by (cases "get_metadata_row E ?w1 u0 True")
      from worker_summary[OF g] obtain s0 where r0: "r0 = Some s0"
        and f0: "\<forall>q. q \<noteq> scratch_path (strip u0) \<longrightarrow> files w2 q = files ?w1 q"
        by blast
      obtain rs w3 where im: "imap_unordered E sched (file_write w2 output_fn s0) rest = (rs, w3)"
        by (cases "imap_unordered E sched (file_write w2 output_fn s0) rest")
      note f1 = imap_unordered_frame[OF im]
      have run: "write_metadata_table E sched w input_fn output_fn = (None, write_results w3 output_fn rs)"
        unfolding wmt_unfold[OF assms] using Some Cons g r0 im by simp
      have "\<And>q. q \<noteq> output_fn \<Longrightarrow> q \<notin> scratch_paths (u0 # rest) \<Longrightarrow>
          files (write_results w3 output_fn rs) q = files w q"
      proof -
        fix q assume q: "q \<noteq> output_fn" "q \<notin> scratch_paths (u0 # rest)"
        then have q0: "q \<noteq> scratch_path (strip u0)" and qr: "q \<notin> scratch_paths rest"
          by (auto simp: scratch_paths_def)
        have "files (write_results w3 output_fn rs) q = files w3 q"
          unfolding write_results_eq using file_write_frame[of w3 output_fn] q(1) by simp
        also have "\<dots> = files (file_write w2 output_fn s0) q" using f1 qr by simp
        also have "\<dots> = files w2 q" using file_write_frame[of w2 output_fn] q(1) by simp
        also have "\<dots> = files ?w1 q" using f0 q0 by simp
        also have "\<dots> = files w q" using q(1) by simp
        finally show "files (write_results w3 output_fn rs) q = files w q" .
      qed
      then show ?thesis unfolding run using Some Cons by simp
    qed
  qed
qed

subsection \<open>Runs in the example world\<close>

lemma example_single_line_values: "single_line_values example_env"
  unfolding single_line_values_def
  by (auto simp: example_env_def example_hdus_def example_hdus_no_naxis2_def ran_def py_str_def
      NL_def show_int_def show_nat.simps digit_char_def split: if_splits)

lemma example_urls_1:
  "files example_world ''intermediate-data/k2-c01-tpf-urls.txt'' = Some (''http://archive.stsci.edu/missions/k2/target_pixel_files/c0/a.fits'' @ [NL] @ ''http://archive.stsci.edu/missions/k2/target_pixel_files/c0/c.fits'' @ [NL] @ ''http://archive.stsci.edu/missions/k2/target_pixel_files/c0/b.fits'' @ [NL])"
  by (simp add: example_world_def)

lemma example_readlines_1:
  "readlines (''http://archive.stsci.edu/missions/k2/target_pixel_files/c0/a.fits'' @ [NL] @ ''http://archive.stsci.edu/missions/k2/target_pixel_files/c0/c.fits'' @ [NL] @ ''http://archive.stsci.edu/missions/k2/target_pixel_files/c0/b.fits'' @ [NL]) = [''http://archive.stsci.edu/missions/k2/target_pixel_files/c0/a.fits'' @ [NL], ''http://archive.stsci.edu/missions/k2/target_pixel_files/c0/c.fits'' @ [NL], ''http://archive.stsci.edu/missions/k2/target_pixel_files/c0/b.fits'' @ [NL]]"
  by (simp add: readlines_def NL_def CR_def)

lemma example_urls_2:
  "files example_world ''intermediate-data/k2-c02-tpf-urls.txt'' = Some (''http://archive.stsci.edu/missions/k2/target_pixel_files/c0/d.fits'' @ [NL] @ ''http://archive.stsci.edu/missions/k2/target_pixel_files/c0/a.fits'' @ [NL])"
  by (simp add: example_world_def)

lemma example_readlines_2:
  "readlines (''http://archive.stsci.edu/missions/k2/target_pixel_files/c0/d.fits'' @ [NL] @ ''http://archive.stsci.edu/missions/k2/target_pixel_files/c0/a.fits'' @ [NL]) = [''http://archive.stsci.edu/missions/k2/target_pixel_files/c0/d.fits'' @ [NL], ''http://archive.stsci.edu/missions/k2/target_pixel_files/c0/a.fits'' @ [NL]]"
  by (simp add: readlines_def NL_def CR_def)

lemma example_output_outside_scratch:
  "\<not> startswith ''intermediate-data/k2-c01-tpf-metadata.csv'' TMPDIR"
  "\<not> startswith ''intermediate-data/k2-c02-tpf-metadata.csv'' TMPDIR"
  by (simp_all add: startswith_def TMPDIR_def)


lemma example_first_fails:
  "fst (try_block example_env
     (example_world\<lparr>files := (files example_world)(''intermediate-data/k2-c02-tpf-metadata.csv'' \<mapsto> [])\<rparr>)
     (strip (''http://archive.stsci.edu/missions/k2/target_pixel_files/c0/d.fits'' @ [NL])) True) \<noteq> None"
proof -
  have s: "strip (''http://archive.stsci.edu/missions/k2/target_pixel_files/c0/d.fits'' @ [NL]) = ''http://archive.stsci.edu/missions/k2/target_pixel_files/c0/d.fits''" by (simp add: strip_def isspace_def NL_def)
  have m: "mirror_path ''http://archive.stsci.edu/missions/k2/target_pixel_files/c0/d.fits'' = ''/media/gb/kdata/k2/target_pixel_files/c0/d.fits''"
    by (simp add: mirror_path_def MAST_PREFIX_def DATA_STORE_def startswith_def)
  show ?thesis
    unfolding s try_block_def acquire_def m Let_def
    by (simp add: os_path_exists_def example_world_def download_file_def example_env_def)
qed

text \<open>Witness of C9: the run of campaign 2 in the example world. Its first URL,
  \<open>d.fits\<close>, is refused; the run ends without exception and its output has no header
  line.\<close>

theorem header_only_after_first_success_witness:
  "single_line_values example_env \<and>
   \<not> create_denied example_env ''intermediate-data/k2-c02-tpf-metadata.csv'' \<and>
   files example_world ''intermediate-data/k2-c02-tpf-urls.txt'' = Some (''http://archive.stsci.edu/missions/k2/target_pixel_files/c0/d.fits'' @ [NL] @ ''http://archive.stsci.edu/missions/k2/target_pixel_files/c0/a.fits'' @ [NL]) \<and>
   ''intermediate-data/k2-c02-tpf-urls.txt'' \<noteq> ''intermediate-data/k2-c02-tpf-metadata.csv'' \<and>
   \<not> startswith ''intermediate-data/k2-c02-tpf-metadata.csv'' TMPDIR \<and>
   readlines (''http://archive.stsci.edu/missions/k2/target_pixel_files/c0/d.fits'' @ [NL] @ ''http://archive.stsci.edu/missions/k2/target_pixel_files/c0/a.fits'' @ [NL]) = [''http://archive.stsci.edu/missions/k2/target_pixel_files/c0/d.fits'' @ [NL], ''http://archive.stsci.edu/missions/k2/target_pixel_files/c0/a.fits'' @ [NL]] \<and>
   fst (try_block example_env
     (example_world\<lparr>files := (files example_world)(''intermediate-data/k2-c02-tpf-metadata.csv'' \<mapsto> [])\<rparr>)
     (strip (''http://archive.stsci.edu/missions/k2/target_pixel_files/c0/d.fits'' @ [NL])) True) \<noteq> None \<and>
   fst (write_metadata_table example_env [] example_world
          ''intermediate-data/k2-c02-tpf-urls.txt''
          ''intermediate-data/k2-c02-tpf-metadata.csv'') = None \<and>
   (\<exists>content.
      files (snd (write_metadata_table example_env [] example_world
                   ''intermediate-data/k2-c02-tpf-urls.txt''
                   ''intermediate-data/k2-c02-tpf-metadata.csv''))
        ''intermediate-data/k2-c02-tpf-metadata.csv'' = Some content \<and>
      CSV_HEADER @ [NL] \<notin> set (lines_from [] content))"
proof -
  have h2: "\<not> create_denied example_env ''intermediate-data/k2-c02-tpf-metadata.csv''"
    by (simp add: example_env_def)
  have h4: "''intermediate-data/k2-c02-tpf-urls.txt'' \<noteq> ''intermediate-data/k2-c02-tpf-metadata.csv''"
    by simp
  from header_only_after_first_success[OF example_single_line_values h2 example_urls_2 h4
      example_output_outside_scratch(2) example_readlines_2, of "[]"] example_first_fails
  have "fst (write_metadata_table example_env [] example_world
          ''intermediate-data/k2-c02-tpf-urls.txt''
          ''intermediate-data/k2-c02-tpf-metadata.csv'') = None \<and>
   (\<exists>content.
      files (snd (write_metadata_table example_env [] example_world
                   ''intermediate-data/k2-c02-tpf-urls.txt''
                   ''intermediate-data/k2-c02-tpf-metadata.csv''))
        ''intermediate-data/k2-c02-tpf-metadata.csv'' = Some content \<and>
      CSV_HEADER @ [NL] \<notin> set (lines_from [] content))"
    by blast
  with example_single_line_values h2 example_urls_2 h4 example_output_outside_scratch(2)
    example_readlines_2 example_first_fails
  show ?thesis by blast
qed

lemma example_scratch_paths_1:
  "scratch_paths [''http://archive.stsci.edu/missions/k2/target_pixel_files/c0/a.fits'' @ [NL], ''http://archive.stsci.edu/missions/k2/target_pixel_files/c0/c.fits'' @ [NL], ''http://archive.stsci.edu/missions/k2/target_pixel_files/c0/b.fits'' @ [NL]]
     = {''/data/tmp/a.fits'', ''/data/tmp/c.fits'', ''/data/tmp/b.fits''}"
  by (simp add: scratch_paths_def strip_def isspace_def NL_def scratch_path_eq TMPDIR_def
      basename_def)

text \<open>Witness of C10: in the example world the URL list of campaign 0 is missing, and
  the run leaves with the output emptied; the run of campaign 1 leaves the mirrored
  file \<open>a.fits\<close> as it was.\<close>

theorem output_truncated_first_witness:
  "\<not> create_denied example_env ''intermediate-data/k2-c00-tpf-metadata.csv'' \<and>
   files example_world ''intermediate-data/k2-c00-tpf-urls.txt'' = None \<and>
   ''intermediate-data/k2-c00-tpf-urls.txt'' \<noteq> ''intermediate-data/k2-c00-tpf-metadata.csv'' \<and>
   write_metadata_table example_env [] example_world
       ''intermediate-data/k2-c00-tpf-urls.txt'' ''intermediate-data/k2-c00-tpf-metadata.csv''
     = (Some (IOError ''intermediate-data/k2-c00-tpf-urls.txt''),
        example_world\<lparr>files := (files example_world)(''intermediate-data/k2-c00-tpf-metadata.csv'' \<mapsto> [])\<rparr>) \<and>
   \<not> create_denied example_env ''intermediate-data/k2-c01-tpf-metadata.csv'' \<and>
   ''/media/gb/kdata/k2/target_pixel_files/c0/a.fits'' \<noteq> ''intermediate-data/k2-c01-tpf-metadata.csv'' \<and>
   ''/media/gb/kdata/k2/target_pixel_files/c0/a.fits'' \<notin>
      scratch_paths (readlines (''http://archive.stsci.edu/missions/k2/target_pixel_files/c0/a.fits'' @ [NL] @ ''http://archive.stsci.edu/missions/k2/target_pixel_files/c0/c.fits'' @ [NL] @ ''http://archive.stsci.edu/missions/k2/target_pixel_files/c0/b.fits'' @ [NL])) \<and>
   files (snd (write_metadata_table example_env [] example_world
       ''intermediate-data/k2-c01-tpf-urls.txt'' ''intermediate-data/k2-c01-tpf-metadata.csv''))
     ''/media/gb/kdata/k2/target_pixel_files/c0/a.fits'' = Some ''FITS''"
proof -
  have d0: "\<not> create_denied example_env ''intermediate-data/k2-c00-tpf-metadata.csv''"
    and d1: "\<not> create_denied example_env ''intermediate-data/k2-c01-tpf-metadata.csv''"
    by (simp_all add: example_env_def)
  have m0: "files example_world ''intermediate-data/k2-c00-tpf-urls.txt'' = None"
    by (simp add: example_world_def)
  have n0: "''intermediate-data/k2-c00-tpf-urls.txt'' \<noteq> ''intermediate-data/k2-c00-tpf-metadata.csv''"
    by simp
  from output_truncated_first[OF d0, of example_world "''intermediate-data/k2-c00-tpf-urls.txt''" "[]",
      THEN conjunct1, THEN mp, OF conjI[OF m0 n0]]
  have a: "write_metadata_table example_env [] example_world
       ''intermediate-data/k2-c00-tpf-urls.txt'' ''intermediate-data/k2-c00-tpf-metadata.csv''
     = (Some (IOError ''intermediate-data/k2-c00-tpf-urls.txt''),
        example_world\<lparr>files := (files example_world)(''intermediate-data/k2-c00-tpf-metadata.csv'' \<mapsto> [])\<rparr>)" .
  have q1: "''/media/gb/kdata/k2/target_pixel_files/c0/a.fits'' \<noteq> ''intermediate-data/k2-c01-tpf-metadata.csv''"
    by simp
  have q2: "''/media/gb/kdata/k2/target_pixel_files/c0/a.fits'' \<notin>
      scratch_paths (readlines (''http://archive.stsci.edu/missions/k2/target_pixel_files/c0/a.fits'' @ [NL] @ ''http://archive.stsci.edu/missions/k2/target_pixel_files/c0/c.fits'' @ [NL] @ ''http://archive.stsci.edu/missions/k2/target_pixel_files/c0/b.fits'' @ [NL]))"
    unfolding example_readlines_1 example_scratch_paths_1 by simp
  have i1: "files (example_world\<lparr>files := (files example_world)(''intermediate-data/k2-c01-tpf-metadata.csv'' \<mapsto> [])\<rparr>)
      ''intermediate-data/k2-c01-tpf-urls.txt'' = Some (''http://archive.stsci.edu/missions/k2/target_pixel_files/c0/a.fits'' @ [NL] @ ''http://archive.stsci.edu/missions/k2/target_pixel_files/c0/c.fits'' @ [NL] @ ''http://archive.stsci.edu/missions/k2/target_pixel_files/c0/b.fits'' @ [NL])"
    using example_urls_1 by simp
  from output_truncated_first[OF d1, of example_world "''intermediate-data/k2-c01-tpf-urls.txt''" "[]",
      THEN conjunct2, THEN conjunct2, THEN conjunct1]
  have fr: "\<forall>q. q \<noteq> ''intermediate-data/k2-c01-tpf-metadata.csv'' \<and>
        q \<notin> scratch_paths (readlines (''http://archive.stsci.edu/missions/k2/target_pixel_files/c0/a.fits'' @ [NL] @ ''http://archive.stsci.edu/missions/k2/target_pixel_files/c0/c.fits'' @ [NL] @ ''http://archive.stsci.edu/missions/k2/target_pixel_files/c0/b.fits'' @ [NL])) \<longrightarrow>
        files (snd (write_metadata_table example_env [] example_world
           ''intermediate-data/k2-c01-tpf-urls.txt'' ''intermediate-data/k2-c01-tpf-metadata.csv'')) q
          = files example_world q"
    unfolding i1 option.case .
  from fr[THEN spec, THEN mp, OF conjI[OF q1 q2]] have b: "files (snd (write_metadata_table example_env [] example_world
       ''intermediate-data/k2-c01-tpf-urls.txt'' ''intermediate-data/k2-c01-tpf-metadata.csv''))
     ''/media/gb/kdata/k2/target_pixel_files/c0/a.fits''
       = files example_world ''/media/gb/kdata/k2/target_pixel_files/c0/a.fits''" .
  have c: "files example_world ''/media/gb/kdata/k2/target_pixel_files/c0/a.fits'' = Some ''FITS''"
    by (simp add: example_world_def)
  from b c have e: "files (snd (write_metadata_table example_env [] example_world
       ''intermediate-data/k2-c01-tpf-urls.txt'' ''intermediate-data/k2-c01-tpf-metadata.csv''))
     ''/media/gb/kdata/k2/target_pixel_files/c0/a.fits'' = Some ''FITS''" by (rule trans)
  show ?thesis by (intro conjI d0 m0 n0 a d1 q1 q2 e)
qed

subsection \<open>The main loop\<close>

lemma campaign_paths_differ: "campaign_input_fn c \<noteq> campaign_output_fn c"
  by (simp add: campaign_input_fn_def campaign_output_fn_def)

lemma campaign_loop_missing_input:
  assumes "files w (campaign_input_fn c) = None"
    and "\<not> create_denied E (campaign_output_fn c)"
  shows "campaign_loop E scheds w (c # cs) =
     (Uncaught (IOError (campaign_input_fn c)),
      (log_add w (InfoNowIndexing c))\<lparr>files := (files w)(campaign_output_fn c \<mapsto> [])\<rparr>)"
proof -
  have "write_metadata_table E (scheds c) (log_add w (InfoNowIndexing c))
      (campaign_input_fn c) (campaign_output_fn c)
    = (Some (IOError (campaign_input_fn c)),
       (log_add w (InfoNowIndexing c))\<lparr>files := (files w)(campaign_output_fn c \<mapsto> [])\<rparr>)"
    unfolding wmt_unfold[OF assms(2)]
    using assms(1) campaign_paths_differ[of c] by (simp add: log_add_def)
  then show ?thesis by simp
qed

text \<open>
  Claim C7, as amended. When the URL list of a campaign is missing (and the output of
  that campaign can be opened), \<open>write_metadata_table\<close> raises after it has emptied
  the output, and the loop of the main program does not catch the exception: the loop
  ends there with the exception uncaught, whatever campaigns are left, and so does the
  program called with \<open>all\<close> when the list of campaign 0 is missing. The world it
  leaves is the one in which only that campaign was announced and its output emptied:
  no later campaign is processed.
\<close>

theorem missing_url_list_stops_run:
  "(files w (campaign_input_fn c) = None \<and> \<not> create_denied E (campaign_output_fn c) \<longrightarrow>
      campaign_loop E scheds w (c # cs) =
        (Uncaught (IOError (campaign_input_fn c)),
         (log_add w (InfoNowIndexing c))\<lparr>files := (files w)(campaign_output_fn c \<mapsto> [])\<rparr>)) \<and>
   (files w (campaign_input_fn 0) = None \<and> \<not> create_denied E (campaign_output_fn 0) \<longrightarrow>
      main E scheds w [prog, ''all''] =
        (Uncaught (IOError (campaign_input_fn 0)),
         (log_add w (InfoNowIndexing 0))\<lparr>files := (files w)(campaign_output_fn 0 \<mapsto> [])\<rparr>))"
  using campaign_loop_missing_input[of w c E scheds cs]
    campaign_loop_missing_input[of w 0 E scheds "[1, 2, 3, 4, 5]"]
  by (simp add: main_def)

lemma example_campaign_paths:
  "campaign_input_fn 0 = ''intermediate-data/k2-c00-tpf-urls.txt''"
  "campaign_output_fn 0 = ''intermediate-data/k2-c00-tpf-metadata.csv''"
  "campaign_input_fn 1 = ''intermediate-data/k2-c01-tpf-urls.txt''"
  "campaign_output_fn 1 = ''intermediate-data/k2-c01-tpf-metadata.csv''"
  by (simp_all add: campaign_input_fn_def campaign_output_fn_def format_02d_def show_int_def
      show_nat.simps digit_char_def)

lemma example_campaign_0:
  "files example_world (campaign_input_fn 0) = None"
  "\<not> create_denied example_env (campaign_output_fn 0)"
  unfolding example_campaign_paths by (simp_all add: example_world_def example_env_def)

text \<open>Witness of C7 as amended: the example world has no URL list for campaign 0.\<close>

theorem missing_url_list_stops_run_witness:
  "files example_world (campaign_input_fn 0) = None \<and>
   \<not> create_denied example_env (campaign_output_fn 0) \<and>
   campaign_loop example_env (\<lambda>c. []) example_world [0, 1] =
     (Uncaught (IOError ''intermediate-data/k2-c00-tpf-urls.txt''),
      (log_add example_world (InfoNowIndexing 0))
        \<lparr>files := (files example_world)(''intermediate-data/k2-c00-tpf-metadata.csv'' \<mapsto> [])\<rparr>) \<and>
   main example_env (\<lambda>c. []) example_world [''2-analyze-target-pixel-files.py'', ''all''] =
     (Uncaught (IOError ''intermediate-data/k2-c00-tpf-urls.txt''),
      (log_add example_world (InfoNowIndexing 0))
        \<lparr>files := (files example_world)(''intermediate-data/k2-c00-tpf-metadata.csv'' \<mapsto> [])\<rparr>)"
  using missing_url_list_stops_run[of example_world 0 example_env "\<lambda>c. []" "[1]"
      "''2-analyze-target-pixel-files.py''"] example_campaign_0
  unfolding example_campaign_paths by simp

text \<open>
  Claim C7, as stated, fails: in the example world the list of campaign 0 is missing
  and the list of campaign 1 is there; the program called with \<open>all\<close> ends with the
  exception of campaign 0, the output of campaign 1 is never created and campaign 1 is
  never announced in the log.
\<close>

theorem later_campaigns_not_processed:
  "files example_world (campaign_input_fn 0) = None \<and>
   files example_world (campaign_input_fn 1) \<noteq> None \<and>
   fst (main example_env (\<lambda>c. []) example_world [''2-analyze-target-pixel-files.py'', ''all''])
     = Uncaught (IOError ''intermediate-data/k2-c00-tpf-urls.txt'') \<and>
   files (snd (main example_env (\<lambda>c. []) example_world [''2-analyze-target-pixel-files.py'', ''all'']))
     (campaign_output_fn 1) = None \<and>
   InfoNowIndexing 1 \<notin>
     set (log (snd (main example_env (\<lambda>c. []) example_world [''2-analyze-target-pixel-files.py'', ''all''])))"
proof -
  have m: "main example_env (\<lambda>c. []) example_world [''2-analyze-target-pixel-files.py'', ''all'']
      = (Uncaught (IOError (campaign_input_fn 0)),
         (log_add example_world (InfoNowIndexing 0))
           \<lparr>files := (files example_world)(campaign_output_fn 0 \<mapsto> [])\<rparr>)"
    using campaign_loop_missing_input[OF example_campaign_0, of "\<lambda>c. []" "[1, 2, 3, 4, 5]"]
    by (simp add: main_def)
  have i1: "files example_world (campaign_input_fn 1) \<noteq> None"
    unfolding example_campaign_paths by (simp add: example_world_def)
  show ?thesis
    unfolding m using example_campaign_0(1) i1
    unfolding example_campaign_paths by (simp add: log_add_def example_world_def)
qed

end
